theory Spec2Isabelle
  imports Complex_Main "HOL-Library.Multiset"
begin

section \<open>The store: tables and rows\<close>

text \<open>
  The job routes (\<^verbatim>\<open>src/routes/jobs.js\<close>) assemble T-SQL text and hand it to
  \<^verbatim>\<open>executeQuery\<close>. The embedding keeps the two layers apart: the handlers build a
  WHERE clause (a list of conditions joined by AND), an ORDER BY clause (a list of keys
  with a direction) and a window, exactly as the source appends them, and a small
  semantics of the SELECT statement runs them over the tables.

  Instants (\<^verbatim>\<open>posted_date\<close>, \<^verbatim>\<open>application_deadline\<close>, \<^verbatim>\<open>GETDATE()\<close>) are
  seconds since an epoch. Money is an exact number. A nullable column is an \<open>option\<close>;
  which columns are nullable follows the INSERT and the validators of the company
  routes (\<^verbatim>\<open>salary_min\<close>, \<^verbatim>\<open>salary_max\<close>, \<^verbatim>\<open>application_deadline\<close>, \<^verbatim>\<open>requirements\<close>,
  \<^verbatim>\<open>industry\<close> and \<^verbatim>\<open>company_size\<close> may be NULL). Columns that the job routes only
  copy to the output (currency, department, logo and so on) are left out of the rows.
  The page, the limit and the offset are JavaScript numbers, rounded as doubles are;
  the largest integer the driver sends as a parameter is a parameter of the
  environment, and a statement with a larger one fails.
\<close>

type_synonym datetime = int

record job =
  job_id :: int
  company_id :: int
  title :: string
  description :: string
  requirements :: "string option"
  location :: string
  remote_work_option :: string
  salary_min :: "rat option"
  salary_max :: "rat option"
  job_type :: string
  experience_level :: string
  industry :: "string option"
  posted_date :: datetime
  application_deadline :: "datetime option"
  current_applications :: int
  views_count :: int
  status :: string

record company =
  c_company_id :: int
  company_name :: string
  company_size :: "string option"

text \<open>\<^verbatim>\<open>Applications\<close> and \<^verbatim>\<open>SavedJobs\<close> rows are pairs (job id, jobseeker id).\<close>

record db =
  Jobs :: "job list"
  Companies :: "company list"
  Applications :: "(int \<times> int) list"
  SavedJobs :: "(int \<times> int) list"

text \<open>\<^verbatim>\<open>FROM Jobs j INNER JOIN Companies c ON j.company_id = c.company_id\<close>\<close>

type_synonym row = "job \<times> company"

definition joined :: "db \<Rightarrow> row list" where
  "joined d = [(j, c). j \<leftarrow> Jobs d, c \<leftarrow> Companies d, company_id j = c_company_id c]"

section \<open>Text comparison and LIKE\<close>

text \<open>
  Modelled from the spec: the collation of the database is not set anywhere under
  \<^verbatim>\<open>src/\<close>; the spec calls the text match case-insensitive, which is SQL Server's
  default collation. \<open>collate\<close> folds the ASCII letters; text is compared after folding,
  by \<^verbatim>\<open>=\<close>, \<^verbatim>\<open>IN\<close>, \<^verbatim>\<open>LIKE\<close> and \<^verbatim>\<open>ORDER BY\<close> alike. The padding of trailing blanks
  by \<^verbatim>\<open>=\<close> is not modelled.
\<close>

definition collate :: "char \<Rightarrow> char" where
  "collate c = (let n = (of_char c :: nat) in
                if 65 \<le> n \<and> n \<le> 90 then char_of (n + 32) else c)"

definition ci_eq :: "string \<Rightarrow> string \<Rightarrow> bool" where
  "ci_eq a b = (map collate a = map collate b)"

definition ccode :: "char \<Rightarrow> nat" where
  "ccode c = of_char (collate c)"

fun str_le :: "string \<Rightarrow> string \<Rightarrow> bool" where
  "str_le [] _ = True"
| "str_le (a # as) [] = False"
| "str_le (a # as) (b # bs) =
     (ccode a < ccode b \<or> (ccode a = ccode b \<and> str_le as bs))"

text \<open>
  A LIKE pattern: \<^verbatim>\<open>%\<close> stands for any run of characters, \<^verbatim>\<open>_\<close> for one character,
  \<^verbatim>\<open>[...]\<close> for one character of a set of characters and ranges (\<^verbatim>\<open>[^...]\<close> for one
  outside it); every other character stands for itself. A \<^verbatim>\<open>[\<close> that is never closed
  is read as itself here.
\<close>

datatype like_tok = AnySeq | AnyChar | Lit char | CharClass bool "(char \<times> char) list"

fun class_items :: "string \<Rightarrow> (char \<times> char) list" where
  "class_items (a # m # b # cs) =
     (if m = CHR ''-'' then (a, b) # class_items cs else (a, a) # class_items (m # b # cs))"
| "class_items (a # cs) = (a, a) # class_items cs"
| "class_items [] = []"

function parse_like :: "string \<Rightarrow> like_tok list" where
  "parse_like [] = []"
| "parse_like (c # cs) =
     (if c = CHR ''%'' then AnySeq # parse_like cs
      else if c = CHR ''_'' then AnyChar # parse_like cs
      else if c = CHR ''['' \<and> CHR '']'' \<in> set cs then
        (let body = takeWhile (\<lambda>x. x \<noteq> CHR '']'') cs;
             rest = tl (dropWhile (\<lambda>x. x \<noteq> CHR '']'') cs);
             neg = (body \<noteq> [] \<and> hd body = CHR ''^'')
         in CharClass neg (class_items (if neg then tl body else body)) # parse_like rest)
      else Lit c # parse_like cs)"
  by pat_completeness auto
termination
  apply (relation "measure length")
  apply (auto simp: less_Suc_eq_le)
  apply (rule le_trans [OF diff_le_self length_dropWhile_le])
  done

definition in_class :: "(char \<times> char) list \<Rightarrow> char \<Rightarrow> bool" where
  "in_class items d = list_ex (\<lambda>(lo, hi). ccode lo \<le> ccode d \<and> ccode d \<le> ccode hi) items"

fun like_match :: "like_tok list \<Rightarrow> string \<Rightarrow> bool" where
  "like_match [] s = (s = [])"
| "like_match (AnySeq # ts) [] = like_match ts []"
| "like_match (AnySeq # ts) (d # s) = (like_match ts (d # s) \<or> like_match (AnySeq # ts) s)"
| "like_match (AnyChar # ts) [] = False"
| "like_match (AnyChar # ts) (d # s) = like_match ts s"
| "like_match (Lit c # ts) [] = False"
| "like_match (Lit c # ts) (d # s) = (collate c = collate d \<and> like_match ts s)"
| "like_match (CharClass neg items # ts) [] = False"
| "like_match (CharClass neg items # ts) (d # s) =
     (in_class items d \<noteq> neg \<and> like_match ts s)"

definition like :: "string \<Rightarrow> string \<Rightarrow> bool" where
  "like s pat = like_match (parse_like pat) s"

section \<open>WHERE: conditions over a joined row\<close>

text \<open>
  The text columns the clauses name. A condition is one parenthesised piece of the
  WHERE text; the pieces are joined by AND. No clause of the source negates anything,
  so SQL's third truth value never turns into TRUE: \<open>holds\<close> says that the condition
  evaluates to TRUE on the row, and a comparison with NULL does not hold.
\<close>

datatype text_col =
  Title | Description | Requirements | CompanyName | Location | Industry
  | JobType | ExperienceLevel | RemoteWorkOption | CompanySize | Status

fun text_of :: "text_col \<Rightarrow> row \<Rightarrow> string option" where
  "text_of Title (j, c) = Some (title j)"
| "text_of Description (j, c) = Some (description j)"
| "text_of Requirements (j, c) = requirements j"
| "text_of CompanyName (j, c) = Some (company_name c)"
| "text_of Location (j, c) = Some (location j)"
| "text_of Industry (j, c) = industry j"
| "text_of JobType (j, c) = Some (job_type j)"
| "text_of ExperienceLevel (j, c) = Some (experience_level j)"
| "text_of RemoteWorkOption (j, c) = Some (remote_work_option j)"
| "text_of CompanySize (j, c) = company_size c"
| "text_of Status (j, c) = Some (status j)"

definition col_like :: "text_col \<Rightarrow> string \<Rightarrow> row \<Rightarrow> bool" where
  "col_like col pat r = (case text_of col r of None \<Rightarrow> False | Some s \<Rightarrow> like s pat)"

datatype cond =
  Like text_col string
  | Eq text_col string
  | In text_col "string list"
  | SalaryMinGe rat
  | SalaryMinIsNull
  | SalaryMaxLe rat
  | SalaryMaxIsNull
  | DeadlineIsNull
  | DeadlineGeToday
  | PostedSinceDays int
  | Or cond cond

definition day :: int where
  "day = 86400"

text \<open>\<^verbatim>\<open>CAST(GETDATE() AS DATE)\<close>: the start of the current day.\<close>

definition cast_date :: "datetime \<Rightarrow> datetime" where
  "cast_date t = t - t mod day"

text \<open>\<^verbatim>\<open>DATEADD(day, -n, GETDATE())\<close>\<close>

definition days_ago :: "datetime \<Rightarrow> int \<Rightarrow> datetime" where
  "days_ago now n = now - n * day"

fun holds :: "datetime \<Rightarrow> cond \<Rightarrow> row \<Rightarrow> bool" where
  "holds now (Like col pat) r = col_like col pat r"
| "holds now (Eq col v) r = (case text_of col r of None \<Rightarrow> False | Some s \<Rightarrow> ci_eq s v)"
| "holds now (In col vs) r =
     (case text_of col r of None \<Rightarrow> False | Some s \<Rightarrow> list_ex (ci_eq s) vs)"
| "holds now (SalaryMinGe m) r =
     (case salary_min (fst r) of None \<Rightarrow> False | Some s \<Rightarrow> m \<le> s)"
| "holds now SalaryMinIsNull r = (salary_min (fst r) = None)"
| "holds now (SalaryMaxLe m) r =
     (case salary_max (fst r) of None \<Rightarrow> False | Some s \<Rightarrow> s \<le> m)"
| "holds now SalaryMaxIsNull r = (salary_max (fst r) = None)"
| "holds now DeadlineIsNull r = (application_deadline (fst r) = None)"
| "holds now DeadlineGeToday r =
     (case application_deadline (fst r) of None \<Rightarrow> False | Some t \<Rightarrow> cast_date now \<le> t)"
| "holds now (PostedSinceDays n) r = (days_ago now n \<le> posted_date (fst r))"
| "holds now (Or a b) r = (holds now a r \<or> holds now b r)"

definition satisfies :: "datetime \<Rightarrow> cond list \<Rightarrow> row \<Rightarrow> bool" where
  "satisfies now wc r = list_all (\<lambda>c. holds now c r) wc"

section \<open>ORDER BY: keys, directions and sorting\<close>

text \<open>
  A sort key evaluates to a value; NULL sorts lowest, as in SQL Server. The trending
  score multiplies integers by the decimal literals \<^verbatim>\<open>0.7\<close> and \<^verbatim>\<open>0.3\<close>, which in
  T-SQL are exact decimals, so the score is an exact number. The two counters are
  integer columns that are never NULL.
\<close>

datatype sort_expr =
  ByPostedDate | BySalaryMin | BySalaryMax | ByTitle | ByCompanyName
  | ByTier string | ByScore

datatype dir = ASC | DESC

type_synonym order_by = "(sort_expr \<times> dir) list"

datatype keyval = KNull | KNum rat | KStr string

fun kv_le :: "keyval \<Rightarrow> keyval \<Rightarrow> bool" where
  "kv_le KNull _ = True"
| "kv_le (KNum a) (KNum b) = (a \<le> b)"
| "kv_le (KNum a) (KStr b) = True"
| "kv_le (KStr a) (KStr b) = str_le a b"
| "kv_le _ _ = False"

text \<open>
  \<^verbatim>\<open>CASE WHEN j.title LIKE @keywords THEN 1 WHEN c.company_name LIKE @keywords THEN 2
  WHEN j.description LIKE @keywords THEN 3 ELSE 4 END\<close>
\<close>

definition tier :: "string \<Rightarrow> row \<Rightarrow> nat" where
  "tier pat r =
     (if col_like Title pat r then 1
      else if col_like CompanyName pat r then 2
      else if col_like Description pat r then 3
      else 4)"

text \<open>\<^verbatim>\<open>j.views_count * 0.7 + j.current_applications * 0.3\<close>\<close>

definition score :: "int \<Rightarrow> int \<Rightarrow> rat" where
  "score views applications = of_int views * (7 / 10) + of_int applications * (3 / 10)"

fun opt_num :: "rat option \<Rightarrow> keyval" where
  "opt_num None = KNull"
| "opt_num (Some x) = KNum x"

fun key :: "sort_expr \<Rightarrow> row \<Rightarrow> keyval" where
  "key ByPostedDate (j, c) = KNum (of_int (posted_date j))"
| "key BySalaryMin (j, c) = opt_num (salary_min j)"
| "key BySalaryMax (j, c) = opt_num (salary_max j)"
| "key ByTitle (j, c) = KStr (title j)"
| "key ByCompanyName (j, c) = KStr (company_name c)"
| "key (ByTier pat) (j, c) = KNum (of_nat (tier pat (j, c)))"
| "key ByScore (j, c) = KNum (score (views_count j) (current_applications j))"

text \<open>
  \<open>ord_le ob a b\<close>: row \<open>a\<close> may stand before row \<open>b\<close> under the ORDER BY list \<open>ob\<close>
  (the first key on which the rows differ decides, in its direction).
\<close>

fun ord_le :: "order_by \<Rightarrow> row \<Rightarrow> row \<Rightarrow> bool" where
  "ord_le [] a b = True"
| "ord_le ((e, d) # ks) a b =
     (if kv_le (key e a) (key e b) \<and> kv_le (key e b) (key e a) then ord_le ks a b
      else (case d of ASC \<Rightarrow> kv_le (key e a) (key e b) | DESC \<Rightarrow> kv_le (key e b) (key e a)))"

text \<open>
  SQL leaves the order of rows that tie on every key to the engine, and the engine may
  settle it differently for every statement it is sent. Its choice is a parameter of the
  model: a rank of the rows, which the environment gives for the statement at hand. The
  rows are put in the order of their rank and then sorted by stable insertion on the
  ORDER BY keys, so rows that tie on the keys come out by rank, and rows of equal rank
  as the table has them. Every arrangement of distinct rows that is sorted on the keys
  can be had in this way.
\<close>

fun insert_row :: "order_by \<Rightarrow> row \<Rightarrow> row list \<Rightarrow> row list" where
  "insert_row ob x [] = [x]"
| "insert_row ob x (y # ys) =
     (if ord_le ob x y then x # y # ys else y # insert_row ob x ys)"

definition sql_sort :: "order_by \<Rightarrow> row list \<Rightarrow> row list" where
  "sql_sort ob rows = foldr (insert_row ob) rows []"

definition ordered :: "(row \<Rightarrow> int) \<Rightarrow> order_by \<Rightarrow> row list \<Rightarrow> row list" where
  "ordered rank ob rows = sql_sort ob (sort_key rank rows)"

section \<open>JavaScript numbers\<close>

text \<open>
  A JavaScript number is a double. It holds every integer up to \<^verbatim>\<open>2^53\<close> in absolute
  value exactly; a larger integer is rounded to 53 significant bits, to the nearest
  double and to the even one of two that are equally near. The rounded value stands for
  \<^verbatim>\<open>Infinity\<close> from \<^verbatim>\<open>2^1024\<close> on.
\<close>

function bit_length :: "int \<Rightarrow> nat" where
  "bit_length n = (if n \<le> 0 then 0 else Suc (bit_length (n div 2)))"
  by pat_completeness auto
termination by (relation "measure nat") auto

definition to_number :: "int \<Rightarrow> int" where
  "to_number n =
     (if \<bar>n\<bar> \<le> 2 ^ 53 then n
      else
        let k = bit_length \<bar>n\<bar> - 53;
            q = \<bar>n\<bar> div 2 ^ k;
            r = \<bar>n\<bar> mod 2 ^ k;
            q' = (if 2 ^ k < 2 * r \<or> (2 * r = 2 ^ k \<and> odd q) then q + 1 else q)
        in sgn n * (q' * 2 ^ k))"

definition is_finite :: "int \<Rightarrow> bool" where
  "is_finite n = (\<bar>n\<bar> < 2 ^ 1024)"

text \<open>
  \<^verbatim>\<open>parseInt\<close> of the decimal text of an integer (the validators let no other text
  through) is the number nearest to that integer.
\<close>

definition parseInt :: "int \<Rightarrow> int" where
  "parseInt n = to_number n"

section \<open>The SELECT statement of the listing routes\<close>

text \<open>
  \<^verbatim>\<open>req.user\<close>, as \<^verbatim>\<open>optionalAuth\<close> leaves it: absent, or the user's type and
  jobseeker id (NULL for a user with no jobseeker row).
\<close>

record user =
  userType :: string
  jobseekerId :: "int option"

record result_row =
  r_job :: job
  r_company :: company
  total_count :: nat
  has_applied :: "nat option"
  is_saved :: "nat option"

text \<open>\<^verbatim>\<open>req.user && req.user.userType === 'jobseeker'\<close>\<close>

definition is_jobseeker :: "user option \<Rightarrow> bool" where
  "is_jobseeker u = (case u of None \<Rightarrow> False | Some x \<Rightarrow> userType x = ''jobseeker'')"

text \<open>
  What a handler hands to \<^verbatim>\<open>executeQuery\<close>: the statement with its parameters. The
  select list has the two per-user columns, with the parameter \<^verbatim>\<open>@jobseekerId\<close>, only
  for a jobseeker.
\<close>

record statement =
  s_jobseekerId :: "int option option"
  s_where :: "cond list"
  s_order_by :: order_by
  s_offset :: int
  s_limit :: int

definition user_param :: "user option \<Rightarrow> int option option" where
  "user_param u =
     (case u of
        None \<Rightarrow> None
      | Some x \<Rightarrow> if userType x = ''jobseeker'' then Some (jobseekerId x) else None)"

text \<open>
  What a handler cannot control is a parameter: the clock the database reads; whether
  the store answers the primary statement; whether the view-count UPDATE that is sent
  without being awaited succeeds; the largest integer the driver sends as a parameter
  (the driver is not part of the repository); and the rank by which the engine settles
  ties for a statement.
\<close>

record env =
  e_now :: datetime
  e_query_ok :: bool
  e_update_ok :: bool
  e_param_max :: int
  e_plan :: "statement \<Rightarrow> row \<Rightarrow> int"

text \<open>
  \<^verbatim>\<open>(SELECT COUNT(*) FROM Applications WHERE job_id = j.job_id AND jobseeker_id =
  @jobseekerId)\<close>, and the same over \<^verbatim>\<open>SavedJobs\<close>.
\<close>

definition count_rel :: "(int \<times> int) list \<Rightarrow> int \<Rightarrow> int option \<Rightarrow> nat" where
  "count_rel rel jid sid = length (filter (\<lambda>(a, b). a = jid \<and> Some b = sid) rel)"

definition select_row :: "db \<Rightarrow> int option option \<Rightarrow> nat \<Rightarrow> row \<Rightarrow> result_row" where
  "select_row d up n r =
     \<lparr>r_job = fst r, r_company = snd r, total_count = n,
      has_applied = map_option (count_rel (Applications d) (job_id (fst r))) up,
      is_saved = map_option (count_rel (SavedJobs d) (job_id (fst r))) up\<rparr>"

text \<open>
  The rows that pass WHERE, each carrying \<^verbatim>\<open>COUNT(*) OVER()\<close> (the number of rows that
  pass WHERE, counted before the window is cut), sorted by ORDER BY, then
  \<^verbatim>\<open>OFFSET @offset ROWS FETCH NEXT @limit ROWS ONLY\<close>.
\<close>

definition matching :: "db \<Rightarrow> datetime \<Rightarrow> cond list \<Rightarrow> row list" where
  "matching d now wc = filter (satisfies now wc) (joined d)"

definition run_select :: "env \<Rightarrow> db \<Rightarrow> statement \<Rightarrow> result_row list" where
  "run_select e d s =
     (let rows = matching d (e_now e) (s_where s)
      in map (select_row d (s_jobseekerId s) (length rows))
           (take (nat (s_limit s))
              (drop (nat (s_offset s)) (ordered (e_plan e s) (s_order_by s) rows))))"

text \<open>
  \<^verbatim>\<open>executeQuery\<close> on such a statement resolves when the store answers and the driver
  takes the integer parameters (\<^verbatim>\<open>Infinity\<close> is none); otherwise it logs and throws.
\<close>

definition accepts :: "env \<Rightarrow> statement \<Rightarrow> bool" where
  "accepts e s =
     (e_query_ok e
      \<and> is_finite (s_offset s) \<and> s_offset s \<le> e_param_max e
      \<and> is_finite (s_limit s) \<and> s_limit s \<le> e_param_max e)"

definition executeQuery :: "env \<Rightarrow> db \<Rightarrow> statement \<Rightarrow> result_row list option" where
  "executeQuery e d s = (if accepts e s then Some (run_select e d s) else None)"

section \<open>Requests and responses\<close>

datatype 'a response = Json200 'a | Status400 | Status500

record pagination =
  p_page :: int
  p_limit :: int
  p_total :: nat
  p_totalPages :: int

record 'f payload =
  jobs :: "result_row list"
  pagination :: pagination
  filters :: 'f

text \<open>
  What a handler leaves behind: the response, the tables once the background UPDATE
  has settled, and the lines written to the error console.
\<close>

record 'a outcome =
  response :: "'a response"
  db_after :: db
  console :: "string list"

text \<open>The \<^verbatim>\<open>trim()\<close> sanitizer strips white space at both ends.\<close>

definition is_space :: "char \<Rightarrow> bool" where
  "is_space c = (let n = (of_char c :: nat) in (9 \<le> n \<and> n \<le> 13) \<or> n = 32)"

definition trim :: "string \<Rightarrow> string" where
  "trim s = rev (dropWhile is_space (rev (dropWhile is_space s)))"

text \<open>\<^verbatim>\<open>if (text) { whereClause += ... }\<close>: a string is truthy when it is not empty.\<close>

definition if_text :: "string option \<Rightarrow> (string \<Rightarrow> cond) \<Rightarrow> cond list" where
  "if_text v f = (case v of None \<Rightarrow> [] | Some s \<Rightarrow> if s \<noteq> [] then [f s] else [])"

text \<open>\<^verbatim>\<open>if (xs && xs.length > 0) { ... IN (...) }\<close>\<close>

definition if_list :: "string list option \<Rightarrow> (string list \<Rightarrow> cond) \<Rightarrow> cond list" where
  "if_list v f = (case v of None \<Rightarrow> [] | Some xs \<Rightarrow> if xs \<noteq> [] then [f xs] else [])"

text \<open>The LIKE parameter \<^verbatim>\<open>`%${text}%`\<close>\<close>

definition wrap :: "string \<Rightarrow> string" where
  "wrap s = ''%'' @ s @ ''%''"

definition opt_ok :: "('a \<Rightarrow> bool) \<Rightarrow> 'a option \<Rightarrow> bool" where
  "opt_ok P v = (case v of None \<Rightarrow> True | Some x \<Rightarrow> P x)"

definition or_default :: "'a option \<Rightarrow> 'a \<Rightarrow> 'a" where
  "or_default v dflt = (case v of None \<Rightarrow> dflt | Some x \<Rightarrow> x)"

text \<open>\<^verbatim>\<open>Math.ceil(totalCount / limit)\<close>\<close>

definition total_pages :: "nat \<Rightarrow> int \<Rightarrow> int" where
  "total_pages totalCount limit = \<lceil>(of_nat totalCount :: rat) / of_int limit\<rceil>"

text \<open>
  \<^verbatim>\<open>const totalCount = result.recordset.length > 0 ? result.recordset[0].total_count : 0\<close>
\<close>

definition totalCount_of :: "result_row list \<Rightarrow> nat" where
  "totalCount_of recordset = (case recordset of [] \<Rightarrow> 0 | r # _ \<Rightarrow> total_count r)"

section \<open>GET /: the listing endpoint\<close>

text \<open>
  The query string after parsing. The validators reject what is not an integer or a
  number before the handler runs; such values have no representation here, and the
  checks that remain are the ranges and the enumerations.
\<close>

record query =
  q_page :: "int option"
  q_limit :: "int option"
  q_search :: "string option"
  q_location :: "string option"
  q_job_type :: "string option"
  q_experience_level :: "string option"
  q_remote_work_option :: "string option"
  q_salary_min :: "rat option"
  q_salary_max :: "rat option"
  q_industry :: "string option"
  q_sort_by :: "string option"
  q_sort_order :: "string option"

definition valid_query :: "query \<Rightarrow> bool" where
  "valid_query q =
     (opt_ok (\<lambda>p. 1 \<le> p) (q_page q)
      \<and> opt_ok (\<lambda>l. 1 \<le> l \<and> l \<le> 50) (q_limit q)
      \<and> opt_ok (\<lambda>v. v \<in> set [''Full-time'', ''Part-time'', ''Contract'', ''Internship'',
                                 ''Freelance'']) (q_job_type q)
      \<and> opt_ok (\<lambda>v. v \<in> set [''Entry-level'', ''Mid-level'', ''Senior-level'',
                                 ''Executive'']) (q_experience_level q)
      \<and> opt_ok (\<lambda>v. v \<in> set [''Yes'', ''No'', ''Hybrid'']) (q_remote_work_option q)
      \<and> opt_ok (\<lambda>v. v \<in> set [''posted_date'', ''salary_min'', ''title'',
                                 ''company_name'']) (q_sort_by q)
      \<and> opt_ok (\<lambda>v. v \<in> set [''asc'', ''desc'']) (q_sort_order q))"

definition sanitize_query :: "query \<Rightarrow> query" where
  "sanitize_query q =
     q\<lparr>q_search := map_option trim (q_search q),
       q_location := map_option trim (q_location q),
       q_industry := map_option trim (q_industry q)\<rparr>"

text \<open>
  The WHERE text of the listing endpoint, clause by clause. A numeric query parameter
  is a non-empty string, hence truthy, whatever its value.
\<close>

definition get_search_clause :: "string \<Rightarrow> cond" where
  "get_search_clause s =
     Or (Or (Like Title (wrap s)) (Like Description (wrap s))) (Like CompanyName (wrap s))"

definition get_where :: "query \<Rightarrow> cond list" where
  "get_where q =
     [Eq Status ''active'']
     @ if_text (q_search q) get_search_clause
     @ if_text (q_location q) (\<lambda>s. Like Location (wrap s))
     @ if_text (q_job_type q) (\<lambda>s. Eq JobType s)
     @ if_text (q_experience_level q) (\<lambda>s. Eq ExperienceLevel s)
     @ if_text (q_remote_work_option q) (\<lambda>s. Eq RemoteWorkOption s)
     @ (case q_salary_min q of None \<Rightarrow> [] | Some m \<Rightarrow> [Or (SalaryMinGe m) SalaryMinIsNull])
     @ (case q_salary_max q of None \<Rightarrow> [] | Some m \<Rightarrow> [Or (SalaryMaxLe m) SalaryMaxIsNull])
     @ if_text (q_industry q) (\<lambda>s. Like Industry (wrap s))
     @ [Or DeadlineIsNull DeadlineGeToday]"

text \<open>
  \<^verbatim>\<open>switch (sort_by)\<close> and \<^verbatim>\<open>sort_order.toUpperCase()\<close>; validation leaves only
  \<^verbatim>\<open>asc\<close> and \<^verbatim>\<open>desc\<close> as orders.
\<close>

definition get_sort_expr :: "string \<Rightarrow> sort_expr" where
  "get_sort_expr sort_by =
     (if sort_by = ''salary_min'' then BySalaryMin
      else if sort_by = ''title'' then ByTitle
      else if sort_by = ''company_name'' then ByCompanyName
      else ByPostedDate)"

definition dir_of :: "string \<Rightarrow> dir" where
  "dir_of sort_order = (if sort_order = ''asc'' then ASC else DESC)"

definition get_order_by :: "query \<Rightarrow> order_by" where
  "get_order_by q =
     [(get_sort_expr (or_default (q_sort_by q) ''posted_date''),
       dir_of (or_default (q_sort_order q) ''desc''))]"

text \<open>
  \<^verbatim>\<open>UPDATE Jobs SET views_count = views_count + 1 WHERE job_id IN (...)\<close>, sent without
  \<^verbatim>\<open>await\<close>; its rejection is caught and written to the console.
\<close>

definition update_views :: "env \<Rightarrow> db \<Rightarrow> int list \<Rightarrow> db \<times> string list" where
  "update_views e d ids =
     (if e_update_ok e
      then (d\<lparr>Jobs := map (\<lambda>j. if job_id j \<in> set ids
                                 then j\<lparr>views_count := views_count j + 1\<rparr> else j) (Jobs d)\<rparr>,
            [])
      else (d, [''Query execution failed:'', ''Failed to update view counts:'']))"

text \<open>
  \<^verbatim>\<open>const offset = (parseInt(page) - 1) * parseInt(limit)\<close>, with
  \<^verbatim>\<open>params.offset = offset\<close> and \<^verbatim>\<open>params.limit = parseInt(limit)\<close>.
\<close>

definition offset_of :: "int \<Rightarrow> int \<Rightarrow> int" where
  "offset_of page limit = to_number (to_number (parseInt page - 1) * parseInt limit)"

definition get_statement :: "user option \<Rightarrow> query \<Rightarrow> statement" where
  "get_statement u q =
     \<lparr>s_jobseekerId = user_param u, s_where = get_where q, s_order_by = get_order_by q,
      s_offset = offset_of (or_default (q_page q) 1) (or_default (q_limit q) 20),
      s_limit = parseInt (or_default (q_limit q) 20)\<rparr>"

definition get_jobs :: "env \<Rightarrow> db \<Rightarrow> user option \<Rightarrow> query \<Rightarrow> (query payload) outcome" where
  "get_jobs e d u q0 =
     (if \<not> valid_query q0 then \<lparr>response = Status400, db_after = d, console = []\<rparr>
      else
        let q = sanitize_query q0;
            page = parseInt (or_default (q_page q) 1);
            limit = parseInt (or_default (q_limit q) 20)
        in
          case executeQuery e d (get_statement u q) of
            None \<Rightarrow>
              \<lparr>response = Status500, db_after = d,
               console = [''Query execution failed:'', ''Get jobs error:'']\<rparr>
          | Some recordset \<Rightarrow>
              let upd = (if recordset \<noteq> []
                         then update_views e d (map (\<lambda>r. job_id (r_job r)) recordset)
                         else (d, []));
                  totalCount = totalCount_of recordset
              in \<lparr>response = Json200
                      \<lparr>jobs = recordset,
                       pagination = \<lparr>p_page = page, p_limit = limit, p_total = totalCount,
                                     p_totalPages = total_pages totalCount limit\<rparr>,
                       filters = q\<lparr>q_page := None, q_limit := None,
                                   q_sort_by := Some (or_default (q_sort_by q) ''posted_date''),
                                   q_sort_order := Some (or_default (q_sort_order q) ''desc'')\<rparr>\<rparr>,
                   db_after = fst upd, console = snd upd\<rparr>)"

section \<open>POST /search: the advanced search endpoint\<close>

text \<open>
  The JSON body. \<open>b_sort_order\<close> stands for a \<^verbatim>\<open>sort_order\<close> member a client may
  send: the handler does not read it. Numbers and booleans are JSON numbers and
  booleans; number \<open>0\<close> is falsy.
\<close>

record salary_range =
  sr_min :: "rat option"
  sr_max :: "rat option"

record body =
  b_keywords :: "string option"
  b_location :: "string option"
  b_radius :: "int option"
  b_job_types :: "string list option"
  b_experience_levels :: "string list option"
  b_industries :: "string list option"
  b_salary_range :: "salary_range option"
  b_remote_only :: "bool option"
  b_posted_within_days :: "int option"
  b_company_size :: "string list option"
  b_sort_by :: "string option"
  b_sort_order :: "string option"
  b_page :: "int option"
  b_limit :: "int option"

definition valid_body :: "body \<Rightarrow> bool" where
  "valid_body b =
     (opt_ok (\<lambda>r. 1 \<le> r \<and> r \<le> 100) (b_radius b)
      \<and> opt_ok (\<lambda>n. 1 \<le> n \<and> n \<le> 365) (b_posted_within_days b)
      \<and> opt_ok (\<lambda>v. v \<in> set [''relevance'', ''posted_date'', ''salary'',
                                 ''company_name'']) (b_sort_by b)
      \<and> opt_ok (\<lambda>p. 1 \<le> p) (b_page b)
      \<and> opt_ok (\<lambda>l. 1 \<le> l \<and> l \<le> 50) (b_limit b))"

definition sanitize_body :: "body \<Rightarrow> body" where
  "sanitize_body b =
     b\<lparr>b_keywords := map_option trim (b_keywords b),
       b_location := map_option trim (b_location b)\<rparr>"

text \<open>\<^verbatim>\<open>if (salary_range) { if (salary_range.min) ...; if (salary_range.max) ... }\<close>\<close>

definition salary_clauses :: "salary_range option \<Rightarrow> cond list" where
  "salary_clauses v =
     (case v of
        None \<Rightarrow> []
      | Some sr \<Rightarrow>
          (case sr_min sr of
             None \<Rightarrow> []
           | Some m \<Rightarrow> if m \<noteq> 0 then [Or (SalaryMinGe m) SalaryMinIsNull] else [])
          @ (case sr_max sr of
               None \<Rightarrow> []
             | Some m \<Rightarrow> if m \<noteq> 0 then [Or (SalaryMaxLe m) SalaryMaxIsNull] else []))"

definition keywords_clause :: "string \<Rightarrow> cond" where
  "keywords_clause s =
     Or (Or (Or (Like Title (wrap s)) (Like Description (wrap s)))
            (Like Requirements (wrap s)))
        (Like CompanyName (wrap s))"

definition search_where :: "body \<Rightarrow> cond list" where
  "search_where b =
     [Eq Status ''active'']
     @ if_text (b_keywords b) keywords_clause
     @ if_text (b_location b) (\<lambda>s. Like Location (wrap s))
     @ if_list (b_job_types b) (\<lambda>xs. In JobType xs)
     @ if_list (b_experience_levels b) (\<lambda>xs. In ExperienceLevel xs)
     @ if_list (b_industries b) (\<lambda>xs. In Industry xs)
     @ salary_clauses (b_salary_range b)
     @ (if b_remote_only b = Some True then [In RemoteWorkOption [''Yes'', ''Hybrid'']] else [])
     @ (case b_posted_within_days b of
          None \<Rightarrow> []
        | Some n \<Rightarrow> if n \<noteq> 0 then [PostedSinceDays n] else [])
     @ if_list (b_company_size b) (\<lambda>xs. In CompanySize xs)"

definition search_order_by :: "body \<Rightarrow> order_by" where
  "search_order_by b =
     (let sort_by = or_default (b_sort_by b) ''relevance''
      in if sort_by = ''posted_date'' then [(ByPostedDate, DESC)]
         else if sort_by = ''salary'' then [(BySalaryMax, DESC), (BySalaryMin, DESC)]
         else if sort_by = ''company_name'' then [(ByCompanyName, ASC)]
         else (case b_keywords b of
                 None \<Rightarrow> [(ByPostedDate, DESC)]
               | Some s \<Rightarrow> if s \<noteq> [] then [(ByTier (wrap s), ASC), (ByPostedDate, DESC)]
                           else [(ByPostedDate, DESC)]))"

definition search_statement :: "user option \<Rightarrow> body \<Rightarrow> statement" where
  "search_statement u b =
     \<lparr>s_jobseekerId = user_param u, s_where = search_where b, s_order_by = search_order_by b,
      s_offset = offset_of (or_default (b_page b) 1) (or_default (b_limit b) 20),
      s_limit = parseInt (or_default (b_limit b) 20)\<rparr>"

definition search_jobs :: "env \<Rightarrow> db \<Rightarrow> user option \<Rightarrow> body \<Rightarrow> (body payload) outcome" where
  "search_jobs e d u b0 =
     (if \<not> valid_body b0 then \<lparr>response = Status400, db_after = d, console = []\<rparr>
      else
        let b = sanitize_body b0;
            page = parseInt (or_default (b_page b) 1);
            limit = parseInt (or_default (b_limit b) 20)
        in
          case executeQuery e d (search_statement u b) of
            None \<Rightarrow>
              \<lparr>response = Status500, db_after = d,
               console = [''Query execution failed:'', ''Advanced search error:'']\<rparr>
          | Some recordset \<Rightarrow>
              let totalCount = totalCount_of recordset
              in \<lparr>response = Json200
                      \<lparr>jobs = recordset,
                       pagination = \<lparr>p_page = page, p_limit = limit, p_total = totalCount,
                                     p_totalPages = total_pages totalCount limit\<rparr>,
                       filters = b\<lparr>b_sort_order := None, b_page := None, b_limit := None,
                                   b_sort_by := Some (or_default (b_sort_by b) ''relevance'')\<rparr>\<rparr>,
                   db_after = d, console = []\<rparr>)"

section \<open>GET /trending/popular\<close>

text \<open>
  \<^verbatim>\<open>parseInt(limit)\<close> of the unvalidated query parameter is a number or NaN; the
  parameter defaults to 10. SQL Server rejects \<^verbatim>\<open>TOP\<close> with a negative count or with
  no number, and the driver a count beyond its bound; the handler turns each into status
  500 like any other failure of the statement.
\<close>

datatype parsed_int = NaN | Num int

definition trending_where :: "cond list" where
  "trending_where = [Eq Status ''active'', PostedSinceDays 30]"

definition trending_order_by :: order_by where
  "trending_order_by = [(ByScore, DESC), (ByPostedDate, DESC)]"

definition trending_statement :: "int \<Rightarrow> statement" where
  "trending_statement n =
     \<lparr>s_jobseekerId = None, s_where = trending_where, s_order_by = trending_order_by,
      s_offset = 0, s_limit = n\<rparr>"

definition trending_popular :: "env \<Rightarrow> db \<Rightarrow> parsed_int option \<Rightarrow> (row list) outcome" where
  "trending_popular e d lim0 =
     (let failed = \<lparr>response = Status500, db_after = d,
                     console = [''Query execution failed:'', ''Get trending jobs error:'']\<rparr>
      in case or_default lim0 (Num 10) of
           NaN \<Rightarrow> failed
         | Num n \<Rightarrow>
             if n < 0 \<or> \<not> accepts e (trending_statement n) then failed
             else \<lparr>response = Json200
                      (take (nat n)
                         (ordered (e_plan e (trending_statement n)) trending_order_by
                            (matching d (e_now e) trending_where))),
                   db_after = d, console = []\<rparr>)"

section \<open>Notions used to state the properties\<close>

text \<open>The joined row behind an output row.\<close>

definition core :: "result_row \<Rightarrow> row" where
  "core r = (r_job r, r_company r)"

text \<open>An output row without the two per-user columns.\<close>

definition strip :: "result_row \<Rightarrow> result_row" where
  "strip r = r\<lparr>has_applied := None, is_saved := None\<rparr>"

text \<open>A response with the two per-user columns removed from every item.\<close>

definition strip_response :: "('f payload) response \<Rightarrow> ('f payload) response" where
  "strip_response r =
     (case r of
        Json200 p \<Rightarrow> Json200 (p\<lparr>jobs := map strip (jobs p)\<rparr>)
      | Status400 \<Rightarrow> Status400
      | Status500 \<Rightarrow> Status500)"

text \<open>
  What a response shows of its page apart from the items themselves: the status, the
  number of items, the pagination envelope and the echoed filters.
\<close>

definition envelope :: "('f payload) response \<Rightarrow> (nat \<times> pagination \<times> 'f) response" where
  "envelope r = map_response (\<lambda>p. (length (jobs p), pagination p, filters p)) r"

text \<open>
  The spec's words for the keyword match: the keyword occurs in the text as a substring,
  letter case aside.
\<close>

definition ci_substring :: "string \<Rightarrow> string \<Rightarrow> bool" where
  "ci_substring kw s = (\<exists>p m q. s = p @ m @ q \<and> ci_eq m kw)"

text \<open>A text without the characters that LIKE reads as wildcards.\<close>

definition plain :: "string \<Rightarrow> bool" where
  "plain kw = list_all (\<lambda>c. c \<noteq> CHR ''%'' \<and> c \<noteq> CHR ''_'' \<and> c \<noteq> CHR ''['') kw"

text \<open>What a response carries when it is a success: the payload, and the ids on the page.\<close>

definition payload_of :: "'a outcome \<Rightarrow> 'a option" where
  "payload_of out = (case response out of Json200 p \<Rightarrow> Some p | Status400 \<Rightarrow> None | Status500 \<Rightarrow> None)"

definition page_ids :: "('f payload) outcome \<Rightarrow> int list option" where
  "page_ids out = map_option (\<lambda>p. map (\<lambda>r. job_id (r_job r)) (jobs p)) (payload_of out)"

definition page_total :: "('f payload) outcome \<Rightarrow> nat option" where
  "page_total out = map_option (\<lambda>p. p_total (pagination p)) (payload_of out)"

section \<open>A small database for the concrete checks\<close>

text \<open>
  One company and three active jobs, read on day 100 at 01:00. Job 1 names the
  keyword ``engineer'' in its title, job 2 only in its description; job 2 states no
  salary; job 3 closed for applications on day 90 and names ``Python'' only in its
  requirements. Jobs 1 and 3 were posted at the same instant. Jobseeker 7 applied to
  job 1 and saved job 2.
\<close>

definition ex_company :: company where
  "ex_company = \<lparr>c_company_id = 1, company_name = ''Acme'', company_size = None\<rparr>"

definition ex_job1 :: job where
  "ex_job1 =
     \<lparr>job_id = 1, company_id = 1, title = ''Software Engineer'',
      description = ''Build services'', requirements = None, location = ''Leeds'',
      remote_work_option = ''No'', salary_min = Some 60000, salary_max = Some 90000,
      job_type = ''Full-time'', experience_level = ''Mid-level'', industry = None,
      posted_date = 8553600, application_deadline = None, current_applications = 10,
      views_count = 100, status = ''active''\<rparr>"

definition ex_job2 :: job where
  "ex_job2 =
     \<lparr>job_id = 2, company_id = 1, title = ''Analyst'',
      description = ''Work with every engineer'', requirements = None, location = ''Leeds'',
      remote_work_option = ''No'', salary_min = None, salary_max = None,
      job_type = ''Full-time'', experience_level = ''Mid-level'', industry = None,
      posted_date = 8560800, application_deadline = None, current_applications = 40,
      views_count = 80, status = ''active''\<rparr>"

definition ex_job3 :: job where
  "ex_job3 =
     \<lparr>job_id = 3, company_id = 1, title = ''Clerk'',
      description = ''Filing'', requirements = Some ''Python'', location = ''Leeds'',
      remote_work_option = ''No'', salary_min = Some 20000, salary_max = Some 30000,
      job_type = ''Full-time'', experience_level = ''Entry-level'', industry = None,
      posted_date = 8553600, application_deadline = Some 7776000, current_applications = 0,
      views_count = 0, status = ''active''\<rparr>"

definition ex_db :: db where
  "ex_db = \<lparr>Jobs = [ex_job1, ex_job2, ex_job3], Companies = [ex_company],
            Applications = [(1, 7)], SavedJobs = [(2, 7)]\<rparr>"

text \<open>
  The store answers, the driver sends integers up to \<^verbatim>\<open>2^53 - 1\<close>, and ties fall as
  the table has the rows. In the second environment the engine settles ties by
  ascending job id for a statement without the per-user columns and by descending job
  id for one with them.
\<close>

definition ex_env :: env where
  "ex_env = \<lparr>e_now = 8643600, e_query_ok = True, e_update_ok = True,
             e_param_max = 9007199254740991, e_plan = (\<lambda>s r. 0)\<rparr>"

definition ex_env_ties :: env where
  "ex_env_ties =
     ex_env\<lparr>e_plan := (\<lambda>s r. case s_jobseekerId s of
                                   None \<Rightarrow> job_id (fst r)
                                 | Some sid \<Rightarrow> - job_id (fst r))\<rparr>"

definition ex_user :: user where
  "ex_user = \<lparr>userType = ''jobseeker'', jobseekerId = Some 7\<rparr>"

text \<open>The request without any parameter, for each endpoint.\<close>

definition ex_query :: query where
  "ex_query =
     \<lparr>q_page = None, q_limit = None, q_search = None, q_location = None, q_job_type = None,
      q_experience_level = None, q_remote_work_option = None, q_salary_min = None,
      q_salary_max = None, q_industry = None, q_sort_by = None, q_sort_order = None\<rparr>"

definition ex_body :: body where
  "ex_body =
     \<lparr>b_keywords = None, b_location = None, b_radius = None, b_job_types = None,
      b_experience_levels = None, b_industries = None, b_salary_range = None,
      b_remote_only = None, b_posted_within_days = None, b_company_size = None,
      b_sort_by = None, b_sort_order = None, b_page = None, b_limit = None\<rparr>"
section \<open>Sorting: the ORDER BY relation is a total preorder and the result is sorted\<close>

lemma str_le_total: "str_le a b \<or> str_le b a"
  by (induction a b rule: str_le.induct) (auto, (case_tac b; simp)?)

lemma str_le_refl: "str_le a a"
  by (induction a) auto

lemma str_le_trans: "str_le a b \<Longrightarrow> str_le b c \<Longrightarrow> str_le a c"
proof (induction a b arbitrary: c rule: str_le.induct)
  case (1 uu)
  then show ?case by simp
next
  case (2 a as)
  then show ?case by simp
next
  case (3 a as b bs)
  then show ?case by (cases c) auto
qed

lemma kv_le_total: "kv_le x y \<or> kv_le y x"
  using str_le_total by (cases x; cases y) auto

lemma kv_le_trans: "kv_le x y \<Longrightarrow> kv_le y z \<Longrightarrow> kv_le x z"
  by (cases x; cases y; cases z) (simp_all, erule (1) str_le_trans)

lemma ord_le_total: "ord_le ob a b \<or> ord_le ob b a"
proof (induction ob)
  case Nil
  then show ?case by simp
next
  case (Cons k ks)
  obtain e d where k: "k = (e, d)" by (cases k)
  show ?case
  proof (cases "kv_le (key e a) (key e b) \<and> kv_le (key e b) (key e a)")
    case True
    with Cons show ?thesis by (simp add: k)
  next
    case False
    with kv_le_total [of "key e a" "key e b"] show ?thesis
      by (cases d) (simp_all add: k, blast+)
  qed
qed

lemma ord_le_trans: "ord_le ob a b \<Longrightarrow> ord_le ob b c \<Longrightarrow> ord_le ob a c"
proof (induction ob)
  case Nil
  then show ?case by simp
next
  case (Cons k ks)
  obtain e d where k: "k = (e, d)" by (cases k)
  define R where "R x y = (case d of ASC \<Rightarrow> kv_le x y | DESC \<Rightarrow> kv_le y x)" for x y
  have tot: "R x y \<or> R y x" for x y
    using kv_le_total [of x y] by (cases d) (auto simp: R_def)
  have tr: "R x y \<Longrightarrow> R y z \<Longrightarrow> R x z" for x y z
    using kv_le_trans [of x y z] kv_le_trans [of z y x] by (cases d) (auto simp: R_def)
  have step: "ord_le (k # ks) u v = (if R (key e u) (key e v) \<and> R (key e v) (key e u)
                                     then ord_le ks u v else R (key e u) (key e v))" for u v
    by (cases d) (auto simp: k R_def)
  let ?x = "key e a" and ?y = "key e b" and ?z = "key e c"
  from Cons.prems have ab: "R ?x ?y" and bc: "R ?y ?z"
    by (auto simp: step split: if_splits)
  then have ac: "R ?x ?z" by (rule tr)
  show ?case
  proof (cases "R ?z ?x")
    case True
    have "R ?y ?x" using bc True by (rule tr)
    moreover have "R ?z ?y" using True ab by (rule tr)
    ultimately have "ord_le ks a b" "ord_le ks b c"
      using Cons.prems ab bc by (auto simp: step)
    then have "ord_le ks a c" by (rule Cons.IH)
    then show ?thesis using ac by (simp add: step)
  next
    case False
    then show ?thesis using ac by (simp add: step)
  qed
qed

lemma set_insert_row: "set (insert_row ob x ys) = insert x (set ys)"
  by (induction ys) auto

lemma length_insert_row: "length (insert_row ob x ys) = Suc (length ys)"
  by (induction ys) auto

lemma sorted_insert_row:
  "sorted_wrt (ord_le ob) ys \<Longrightarrow> sorted_wrt (ord_le ob) (insert_row ob x ys)"
proof (induction ys)
  case Nil
  then show ?case by simp
next
  case (Cons y ys)
  show ?case
  proof (cases "ord_le ob x y")
    case True
    with Cons.prems show ?thesis by (auto intro: ord_le_trans)
  next
    case False
    then have "ord_le ob y x" using ord_le_total by blast
    with False Cons show ?thesis by (auto simp: set_insert_row)
  qed
qed

lemma set_sql_sort: "set (sql_sort ob rows) = set rows"
  unfolding sql_sort_def by (induction rows) (auto simp: set_insert_row)

lemma length_sql_sort: "length (sql_sort ob rows) = length rows"
  unfolding sql_sort_def by (induction rows) (auto simp: length_insert_row)

lemma sorted_sql_sort: "sorted_wrt (ord_le ob) (sql_sort ob rows)"
  unfolding sql_sort_def by (induction rows) (auto intro: sorted_insert_row)

section \<open>LIKE with a wildcard-free keyword is substring search\<close>

lemma parse_like_plain: "plain xs \<Longrightarrow> parse_like (xs @ ys) = map Lit xs @ parse_like ys"
  by (induction xs) (auto simp: plain_def)

lemma parse_like_wrap: "plain kw \<Longrightarrow> parse_like (wrap kw) = AnySeq # map Lit kw @ [AnySeq]"
  using parse_like_plain [of kw "''%''"] by (simp add: wrap_def)

lemma like_match_any: "like_match [AnySeq] s"
  by (induction s) auto

lemma like_match_lits:
  "like_match (map Lit kw @ [AnySeq]) s \<longleftrightarrow> (\<exists>m q. s = m @ q \<and> ci_eq m kw)"
proof (induction kw arbitrary: s)
  case Nil
  then show ?case by (simp add: like_match_any ci_eq_def)
next
  case (Cons c kw)
  show ?case
  proof (cases s)
    case Nil
    then show ?thesis by (simp add: ci_eq_def)
  next
    case (Cons d s')
    have "(\<exists>m q. d # s' = m @ q \<and> ci_eq m (c # kw))
            \<longleftrightarrow> (collate c = collate d \<and> (\<exists>m q. s' = m @ q \<and> ci_eq m kw))"
      (is "?L \<longleftrightarrow> ?R")
    proof
      assume ?L
      then obtain m q where mq: "d # s' = m @ q" "ci_eq m (c # kw)" by blast
      then obtain m' where m': "m = d # m'" by (cases m) (auto simp: ci_eq_def)
      with mq show ?R by (auto simp: ci_eq_def)
    next
      assume ?R
      then obtain m q where "s' = m @ q" "ci_eq m kw" "collate c = collate d" by blast
      then have "d # s' = (d # m) @ q \<and> ci_eq (d # m) (c # kw)" by (simp add: ci_eq_def)
      then show ?L by blast
    qed
    with Cons.IH [of s'] Cons show ?thesis by simp
  qed
qed

lemma like_match_anyseq:
  "like_match (AnySeq # ts) s \<longleftrightarrow> (\<exists>p q. s = p @ q \<and> like_match ts q)"
proof (induction s)
  case Nil
  then show ?case by simp
next
  case (Cons d s)
  have "(\<exists>p q. d # s = p @ q \<and> like_match ts q)
          \<longleftrightarrow> (like_match ts (d # s) \<or> (\<exists>p q. s = p @ q \<and> like_match ts q))"
    (is "?L \<longleftrightarrow> ?R")
  proof
    assume ?L
    then obtain p q where pq: "d # s = p @ q" "like_match ts q" by blast
    show ?R
    proof (cases p)
      case Nil
      with pq show ?thesis by simp
    next
      case (Cons a p')
      with pq have "s = p' @ q" by simp
      with pq show ?thesis by blast
    qed
  next
    assume ?R
    then show ?L
    proof
      assume "like_match ts (d # s)"
      then have "d # s = [] @ (d # s) \<and> like_match ts (d # s)" by simp
      then show ?L by blast
    next
      assume "\<exists>p q. s = p @ q \<and> like_match ts q"
      then obtain p q where "s = p @ q" "like_match ts q" by blast
      then have "d # s = (d # p) @ q \<and> like_match ts q" by simp
      then show ?L by blast
    qed
  qed
  with Cons show ?case by simp
qed

lemma like_wrap: "plain kw \<Longrightarrow> like s (wrap kw) \<longleftrightarrow> ci_substring kw s"
  unfolding like_def ci_substring_def
  by (simp add: parse_like_wrap like_match_anyseq like_match_lits) blast

section \<open>Whatever the engine's rank, the result is a sorted arrangement of the same rows\<close>

lemma mset_insert_row: "mset (insert_row ob x ys) = add_mset x (mset ys)"
  by (induction ys) auto

lemma mset_sql_sort: "mset (sql_sort ob rows) = mset rows"
  unfolding sql_sort_def by (induction rows) (auto simp: mset_insert_row)

lemma set_ordered: "set (ordered rank ob rows) = set rows"
  by (simp add: ordered_def set_sql_sort)

lemma length_ordered: "length (ordered rank ob rows) = length rows"
  by (simp add: ordered_def length_sql_sort)

lemma mset_ordered: "mset (ordered rank ob rows) = mset rows"
  by (simp add: ordered_def mset_sql_sort)

lemma sorted_ordered: "sorted_wrt (ord_le ob) (ordered rank ob rows)"
  by (simp add: ordered_def sorted_sql_sort)

text \<open>
  When no two different rows tie, there is one sorted arrangement only, and the rank
  does not matter.
\<close>

lemma sorted_wrt_unique:
  assumes "sorted_wrt R xs" and "sorted_wrt R ys" and "mset xs = mset ys"
      and "\<And>a b. a \<in> set xs \<Longrightarrow> b \<in> set xs \<Longrightarrow> R a b \<Longrightarrow> R b a \<Longrightarrow> a = b"
  shows "xs = ys"
  using assms
proof (induction xs arbitrary: ys)
  case Nil
  then show ?case by simp
next
  case (Cons x xs)
  from Cons.prems(3) obtain y ys' where ys: "ys = y # ys'" by (cases ys) auto
  have sets: "set (x # xs) = set (y # ys')"
    using Cons.prems(3) ys by (metis mset_eq_setD)
  have xy: "x = y"
  proof (rule ccontr)
    assume ne: "x \<noteq> y"
    with sets have mem: "x \<in> set ys'" "y \<in> set xs" by auto
    with Cons.prems(1,2) ys have "R y x" and "R x y" by auto
    with Cons.prems(4) [of x y] mem(2) ne show False by simp
  qed
  with Cons.prems(3) ys have m: "mset xs = mset ys'" by simp
  have "xs = ys'"
  proof (rule Cons.IH)
    show "sorted_wrt R xs" using Cons.prems(1) by simp
    show "sorted_wrt R ys'" using Cons.prems(2) ys by simp
    show "mset xs = mset ys'" by (rule m)
    show "a = b" if "a \<in> set xs" "b \<in> set xs" "R a b" "R b a" for a b
      using that Cons.prems(4) [of a b] by simp
  qed
  with xy ys show ?case by simp
qed

lemma ordered_rank_free:
  assumes "\<And>a b. a \<in> set rows \<Longrightarrow> b \<in> set rows \<Longrightarrow> ord_le ob a b \<Longrightarrow> ord_le ob b a \<Longrightarrow> a = b"
  shows "ordered r1 ob rows = ordered r2 ob rows"
proof (rule sorted_wrt_unique [where R = "ord_le ob"])
  show "sorted_wrt (ord_le ob) (ordered r1 ob rows)" by (rule sorted_ordered)
  show "sorted_wrt (ord_le ob) (ordered r2 ob rows)" by (rule sorted_ordered)
  show "mset (ordered r1 ob rows) = mset (ordered r2 ob rows)" by (simp add: mset_ordered)
  show "a = b" if "a \<in> set (ordered r1 ob rows)" "b \<in> set (ordered r1 ob rows)"
    "ord_le ob a b" "ord_le ob b a" for a b
    using that assms [of a b] by (simp add: set_ordered)
qed

section \<open>The SELECT statement: window and count\<close>

lemma core_run_select:
  "map core (run_select e d s)
     = take (nat (s_limit s))
         (drop (nat (s_offset s))
            (ordered (e_plan e s) (s_order_by s) (matching d (e_now e) (s_where s))))"
  by (simp add: run_select_def Let_def core_def select_row_def o_def)

lemma length_run_select:
  "length (run_select e d s)
     = min (length (matching d (e_now e) (s_where s)) - nat (s_offset s)) (nat (s_limit s))"
  by (simp add: run_select_def Let_def length_ordered)

lemma run_select_Nil:
  "0 < s_limit s \<Longrightarrow> 0 \<le> s_offset s \<Longrightarrow>
   run_select e d s = [] \<longleftrightarrow> int (length (matching d (e_now e) (s_where s))) \<le> s_offset s"
  by (auto simp: run_select_def Let_def length_ordered)

lemma total_count_run_select:
  "r \<in> set (run_select e d s) \<Longrightarrow> total_count r = length (matching d (e_now e) (s_where s))"
  by (auto simp: run_select_def Let_def select_row_def)

lemma totalCount_of_run_select:
  "totalCount_of (run_select e d s)
     = (if run_select e d s = [] then 0 else length (matching d (e_now e) (s_where s)))"
proof (cases "run_select e d s")
  case Nil
  then show ?thesis by (simp add: totalCount_of_def)
next
  case (Cons r rs)
  then have "r \<in> set (run_select e d s)" by simp
  from total_count_run_select [OF this] Cons show ?thesis by (simp add: totalCount_of_def)
qed

lemma total_pages_less:
  assumes "0 < limit"
  shows "total_pages n limit < page \<longleftrightarrow> int n \<le> (page - 1) * limit"
proof -
  have "total_pages n limit < page \<longleftrightarrow> total_pages n limit \<le> page - 1" by arith
  also have "\<dots> \<longleftrightarrow> (of_nat n :: rat) / of_int limit \<le> of_int (page - 1)"
    unfolding total_pages_def by (rule ceiling_le_iff)
  also have "\<dots> \<longleftrightarrow> (of_nat n :: rat) \<le> of_int (page - 1) * of_int limit"
    using assms by (simp add: pos_divide_le_eq)
  also have "\<dots> \<longleftrightarrow> (of_int (int n) :: rat) \<le> of_int ((page - 1) * limit)"
    by simp
  also have "\<dots> \<longleftrightarrow> int n \<le> (page - 1) * limit"
    by (simp only: of_int_le_iff)
  finally show ?thesis .
qed

lemma satisfies_append: "satisfies now (xs @ ys) r \<longleftrightarrow> satisfies now xs r \<and> satisfies now ys r"
  by (simp add: satisfies_def)

lemma satisfies_Cons: "satisfies now (c # cs) r \<longleftrightarrow> holds now c r \<and> satisfies now cs r"
  by (simp add: satisfies_def)

lemma satisfies_Nil: "satisfies now [] r"
  by (simp add: satisfies_def)

lemma set_run_select:
  "r \<in> set (run_select e d s) \<Longrightarrow>
   core r \<in> set (joined d) \<and> satisfies (e_now e) (s_where s) (core r)"
proof -
  assume "r \<in> set (run_select e d s)"
  then have "core r \<in> set (map core (run_select e d s))" by simp
  then have "core r \<in> set (ordered (e_plan e s) (s_order_by s) (matching d (e_now e) (s_where s)))"
    unfolding core_run_select by (meson in_set_dropD in_set_takeD)
  then show ?thesis by (simp add: set_ordered matching_def)
qed

lemma sorted_run_select: "sorted_wrt (ord_le (s_order_by s)) (map core (run_select e d s))"
  unfolding core_run_select by (intro sorted_wrt_take sorted_wrt_drop sorted_ordered)

section \<open>The handlers on a valid request that the store answers\<close>

lemma page_window:
  assumes "0 < s_limit s" and "1 \<le> page" and "s_offset s = (page - 1) * s_limit s"
  shows "run_select e d s = []
           \<longleftrightarrow> total_pages (length (matching d (e_now e) (s_where s))) (s_limit s) < page"
  using assms by (simp add: run_select_Nil total_pages_less)

lemma valid_query_window:
  "valid_query q \<Longrightarrow> 0 < or_default (q_limit q) 20 \<and> 1 \<le> or_default (q_page q) 1"
  by (auto simp: valid_query_def opt_ok_def or_default_def split: option.splits)

lemma valid_body_window:
  "valid_body b \<Longrightarrow> 0 < or_default (b_limit b) 20 \<and> 1 \<le> or_default (b_page b) 1"
  by (auto simp: valid_body_def opt_ok_def or_default_def split: option.splits)

lemma sanitize_query_window [simp]:
  "q_page (sanitize_query q) = q_page q" "q_limit (sanitize_query q) = q_limit q"
  "q_sort_by (sanitize_query q) = q_sort_by q" "q_sort_order (sanitize_query q) = q_sort_order q"
  by (simp_all add: sanitize_query_def)

lemma sanitize_body_window [simp]:
  "b_page (sanitize_body b) = b_page b" "b_limit (sanitize_body b) = b_limit b"
  "b_sort_by (sanitize_body b) = b_sort_by b"
  by (simp_all add: sanitize_body_def)

text \<open>Up to \<^verbatim>\<open>2^53\<close> the numbers are the integers.\<close>

lemma to_number_exact: "\<bar>n\<bar> \<le> 2 ^ 53 \<Longrightarrow> to_number n = n"
  by (simp add: to_number_def)

lemma parseInt_exact: "\<bar>n\<bar> \<le> 2 ^ 53 \<Longrightarrow> parseInt n = n"
  by (simp add: parseInt_def to_number_exact)

lemma to_number_rounds:
  "to_number 9007199254740993 = 9007199254740992
   \<and> to_number 9007199254740995 = 9007199254740996
   \<and> to_number 99999999999999999999 = 100000000000000000000
   \<and> to_number (- 9007199254740995) = - 9007199254740996"
  by code_simp

lemma valid_query_limit:
  "valid_query q \<Longrightarrow> parseInt (or_default (q_limit q) 20) = or_default (q_limit q) 20"
  by (rule parseInt_exact)
     (auto simp: valid_query_def opt_ok_def or_default_def split: option.splits)

lemma valid_body_limit:
  "valid_body b \<Longrightarrow> parseInt (or_default (b_limit b) 20) = or_default (b_limit b) 20"
  by (rule parseInt_exact)
     (auto simp: valid_body_def opt_ok_def or_default_def split: option.splits)

lemma offset_of_exact:
  assumes "1 \<le> page" and "1 \<le> limit" and "page * limit \<le> 2 ^ 53"
  shows "parseInt page = page" and "parseInt limit = limit"
    and "offset_of page limit = (page - 1) * limit"
proof -
  have a: "page \<le> page * limit"
    using mult_left_mono [of 1 limit page] assms(1,2) by simp
  have b: "limit \<le> page * limit"
    using mult_right_mono [of 1 page limit] assms(1,2) by simp
  have c: "(page - 1) * limit \<le> page * limit"
    using mult_right_mono [of "page - 1" page limit] assms(1,2) by simp
  have d: "0 \<le> (page - 1) * limit" using assms(1,2) by simp
  from a assms(1,3) have p: "\<bar>page\<bar> \<le> 2 ^ 53" by linarith
  from b assms(2,3) have l: "\<bar>limit\<bar> \<le> 2 ^ 53" by linarith
  from c d assms(3) have o: "\<bar>(page - 1) * limit\<bar> \<le> 2 ^ 53" by linarith
  from p assms(1) have m: "\<bar>page - 1\<bar> \<le> 2 ^ 53" by linarith
  show "parseInt page = page" using p by (rule parseInt_exact)
  show "parseInt limit = limit" using l by (rule parseInt_exact)
  show "offset_of page limit = (page - 1) * limit"
    unfolding offset_of_def parseInt_exact [OF p] parseInt_exact [OF l]
      to_number_exact [OF m] to_number_exact [OF o] ..
qed

lemma get_statement_simps [simp]:
  "s_jobseekerId (get_statement u q) = user_param u"
  "s_where (get_statement u q) = get_where q"
  "s_order_by (get_statement u q) = get_order_by q"
  "s_offset (get_statement u q) = offset_of (or_default (q_page q) 1) (or_default (q_limit q) 20)"
  "s_limit (get_statement u q) = parseInt (or_default (q_limit q) 20)"
  by (simp_all add: get_statement_def)

lemma search_statement_simps [simp]:
  "s_jobseekerId (search_statement u b) = user_param u"
  "s_where (search_statement u b) = search_where b"
  "s_order_by (search_statement u b) = search_order_by b"
  "s_offset (search_statement u b)
     = offset_of (or_default (b_page b) 1) (or_default (b_limit b) 20)"
  "s_limit (search_statement u b) = parseInt (or_default (b_limit b) 20)"
  by (simp_all add: search_statement_def)

text \<open>
  Whether the statement is accepted depends on the page and the limit only, not on the
  caller and not on the text filters.
\<close>

lemma accepts_get_statement:
  "accepts e (get_statement u (sanitize_query q0)) = accepts e (get_statement u' q0)"
  by (simp add: accepts_def)

lemma accepts_search_statement:
  "accepts e (search_statement u (sanitize_body b0)) = accepts e (search_statement u' b0)"
  by (simp add: accepts_def)

lemma get_jobs_success:
  assumes "valid_query q0" and "accepts e (get_statement u q0)"
  shows "\<exists>p. response (get_jobs e d u q0) = Json200 p
           \<and> jobs p = run_select e d (get_statement u (sanitize_query q0))
           \<and> p_page (pagination p) = parseInt (or_default (q_page q0) 1)
           \<and> p_limit (pagination p) = or_default (q_limit q0) 20
           \<and> p_total (pagination p) = totalCount_of (jobs p)
           \<and> p_totalPages (pagination p)
               = total_pages (totalCount_of (jobs p)) (or_default (q_limit q0) 20)"
  using assms accepts_get_statement [of e u q0 u] valid_query_limit [of q0]
  by (simp add: get_jobs_def executeQuery_def Let_def)

lemma search_jobs_success:
  assumes "valid_body b0" and "accepts e (search_statement u b0)"
  shows "\<exists>p. response (search_jobs e d u b0) = Json200 p
           \<and> jobs p = run_select e d (search_statement u (sanitize_body b0))
           \<and> p_page (pagination p) = parseInt (or_default (b_page b0) 1)
           \<and> p_limit (pagination p) = or_default (b_limit b0) 20
           \<and> p_total (pagination p) = totalCount_of (jobs p)
           \<and> p_totalPages (pagination p)
               = total_pages (totalCount_of (jobs p)) (or_default (b_limit b0) 20)"
  using assms accepts_search_statement [of e u b0 u] valid_body_limit [of b0]
  by (simp add: search_jobs_def executeQuery_def Let_def)

lemma get_jobs_Json200D:
  assumes "response (get_jobs e d u q0) = Json200 p"
  shows "valid_query q0 \<and> accepts e (get_statement u q0)"
  using assms accepts_get_statement [of e u q0 u]
  by (auto simp: get_jobs_def executeQuery_def Let_def split: if_splits)

lemma search_jobs_Json200D:
  assumes "response (search_jobs e d u b0) = Json200 p"
  shows "valid_body b0 \<and> accepts e (search_statement u b0)"
  using assms accepts_search_statement [of e u b0 u]
  by (auto simp: search_jobs_def executeQuery_def Let_def split: if_splits)

lemma get_jobs_rejected:
  assumes "valid_query q0" and "\<not> accepts e (get_statement u q0)"
  shows "response (get_jobs e d u q0) = Status500"
  using assms accepts_get_statement [of e u q0 u]
  by (simp add: get_jobs_def executeQuery_def Let_def)

lemma search_jobs_rejected:
  assumes "valid_body b0" and "\<not> accepts e (search_statement u b0)"
  shows "response (search_jobs e d u b0) = Status500"
  using assms accepts_search_statement [of e u b0 u]
  by (simp add: search_jobs_def executeQuery_def Let_def)

lemma window_total:
  assumes "0 < s_limit s" and "1 \<le> page" and "s_offset s = (page - 1) * s_limit s"
      and "rs = run_select e d s"
      and "n = length (matching d (e_now e) (s_where s))"
  shows "(page \<le> total_pages n (s_limit s) \<longrightarrow> totalCount_of rs = n \<and> rs \<noteq> [])
         \<and> (total_pages n (s_limit s) < page \<longrightarrow> rs = [])"
  using page_window [OF assms(1,2,3), of e d] assms(4,5)
  by (auto simp: totalCount_of_run_select)

lemma get_jobs_sorted:
  assumes "valid_query q0" and "accepts e (get_statement u q0)"
  shows "\<exists>p. response (get_jobs e d u q0) = Json200 p
           \<and> sorted_wrt (ord_le (get_order_by (sanitize_query q0))) (map core (jobs p))"
  using get_jobs_success [OF assms, of d]
    sorted_run_select [of "get_statement u (sanitize_query q0)" e d]
  by auto

lemma search_jobs_sorted:
  assumes "valid_body b0" and "accepts e (search_statement u b0)"
  shows "\<exists>p. response (search_jobs e d u b0) = Json200 p
           \<and> sorted_wrt (ord_le (search_order_by (sanitize_body b0))) (map core (jobs p))"
  using search_jobs_success [OF assms, of d]
    sorted_run_select [of "search_statement u (sanitize_body b0)" e d]
  by auto

section \<open>The order of tied rows\<close>

text \<open>
  The rank does not restrict the engine: every arrangement of distinct rows that is
  sorted on the ORDER BY keys is the result under some rank.
\<close>

lemma sql_sort_sorted: "sorted_wrt (ord_le ob) ys \<Longrightarrow> sql_sort ob ys = ys"
proof (induction ys)
  case Nil
  show ?case by (simp add: sql_sort_def)
next
  case (Cons y ys)
  then have "sql_sort ob ys = ys" by simp
  then have "sql_sort ob (y # ys) = insert_row ob y ys" by (simp add: sql_sort_def)
  also have "\<dots> = y # ys" using Cons.prems by (cases ys) simp_all
  finally show ?case .
qed

lemma index_nth:
  assumes "distinct ys" and "i < length ys"
  shows "length (takeWhile (\<lambda>x. x \<noteq> ys ! i) ys) = i"
proof -
  have "takeWhile (\<lambda>x. x \<noteq> ys ! i) ys = take i ys"
  proof (rule takeWhile_eq_take_P_nth)
    fix j assume "j < i" "j < length ys"
    with assms show "ys ! j \<noteq> ys ! i" by (simp add: nth_eq_iff_index_eq)
  qed simp
  with assms(2) show ?thesis by simp
qed

lemma filter_single:
  assumes "distinct xs" and "k \<in> set xs" and "\<And>x. x \<in> set xs \<Longrightarrow> P x \<longleftrightarrow> x = k"
  shows "filter P xs = [k]"
  using assms
proof (induction xs)
  case Nil
  then show ?case by simp
next
  case (Cons a xs)
  show ?case
  proof (cases "a = k")
    case True
    with Cons.prems have "\<And>x. x \<in> set xs \<Longrightarrow> \<not> P x" by auto
    then have "filter P xs = []" by (simp add: filter_empty_conv)
    with True Cons.prems(3) [of a] show ?thesis by simp
  next
    case False
    with Cons.prems have "k \<in> set xs" "distinct xs" "\<not> P a" by auto
    with Cons.IH Cons.prems(3) show ?thesis by simp
  qed
qed

lemma ordered_reaches:
  assumes "mset ys = mset rows" and "sorted_wrt (ord_le ob) ys" and "distinct rows"
  shows "\<exists>rank. ordered rank ob rows = ys"
proof -
  define rank where "rank r = int (length (takeWhile (\<lambda>x. x \<noteq> r) ys))" for r
  from assms(1,3) have dy: "distinct ys" by (metis mset_eq_imp_distinct_iff)
  from assms(1) have st: "set ys = set rows" by (rule mset_eq_setD)
  have rn: "rank (ys ! i) = int i" if "i < length ys" for i
    using index_nth [OF dy that] by (simp add: rank_def)
  have inj: "rank a = rank b \<longleftrightarrow> a = b" if "a \<in> set ys" "b \<in> set ys" for a b
  proof -
    from that obtain i j where "i < length ys" "a = ys ! i" "j < length ys" "b = ys ! j"
      by (auto simp: in_set_conv_nth)
    then show ?thesis using rn dy by (auto simp: nth_eq_iff_index_eq)
  qed
  have so: "sorted (map rank ys)"
    unfolding sorted_iff_nth_mono using rn by simp
  have "sort_key rank rows = ys"
  proof (rule properties_for_sort_key [OF assms(1) _ so])
    fix k assume k: "k \<in> set ys"
    have "filter (\<lambda>x. rank k = rank x) ys = [k]"
      using dy k inj [OF k] by (intro filter_single) auto
    moreover have "filter (\<lambda>x. rank k = rank x) rows = [k]"
      using assms(3) k inj [OF k] st by (intro filter_single) auto
    ultimately show "filter (\<lambda>x. rank k = rank x) ys = filter (\<lambda>x. rank k = rank x) rows"
      by simp
  qed
  then have "ordered rank ob rows = ys"
    unfolding ordered_def using sql_sort_sorted [OF assms(2)] by simp
  then show ?thesis by blast
qed

section \<open>C1: the total count and pages past the last one\<close>

text \<open>
  On a page that is not past the last page of the matching rows, the total in the
  pagination envelope is the number of rows that match the WHERE clause, and the page
  is not empty; on a page past the last one that the store still answers, the items
  are empty, with a success. The page and the offset are taken below \<^verbatim>\<open>2^53\<close>, where
  the numbers of the handler are the integers of the request.
\<close>

lemma total_count_on_pages_in_range:
  "(valid_query q0 \<and> accepts e (get_statement u q0)
    \<and> or_default (q_page q0) 1 * or_default (q_limit q0) 20 \<le> 2 ^ 53 \<longrightarrow>
      (\<exists>p. response (get_jobs e d u q0) = Json200 p \<and>
        (let n = length (matching d (e_now e) (get_where (sanitize_query q0)));
             page = or_default (q_page q0) 1;
             limit = or_default (q_limit q0) 20
         in (page \<le> total_pages n limit \<longrightarrow> p_total (pagination p) = n \<and> jobs p \<noteq> [])
            \<and> (total_pages n limit < page \<longrightarrow> jobs p = []))))
   \<and> (valid_body b0 \<and> accepts e (search_statement u b0)
      \<and> or_default (b_page b0) 1 * or_default (b_limit b0) 20 \<le> 2 ^ 53 \<longrightarrow>
      (\<exists>p. response (search_jobs e d u b0) = Json200 p \<and>
        (let n = length (matching d (e_now e) (search_where (sanitize_body b0)));
             page = or_default (b_page b0) 1;
             limit = or_default (b_limit b0) 20
         in (page \<le> total_pages n limit \<longrightarrow> p_total (pagination p) = n \<and> jobs p \<noteq> [])
            \<and> (total_pages n limit < page \<longrightarrow> jobs p = []))))"
proof (intro conjI impI)
  assume a: "valid_query q0 \<and> accepts e (get_statement u q0)
             \<and> or_default (q_page q0) 1 * or_default (q_limit q0) 20 \<le> 2 ^ 53"
  let ?s = "get_statement u (sanitize_query q0)"
  let ?page = "or_default (q_page q0) 1" and ?limit = "or_default (q_limit q0) 20"
  from a get_jobs_success [of q0 e u d] obtain p where
    p: "response (get_jobs e d u q0) = Json200 p" "jobs p = run_select e d ?s"
       "p_total (pagination p) = totalCount_of (jobs p)" by blast
  from a have v: "0 < ?limit" "1 \<le> ?page" "1 \<le> ?limit"
    using valid_query_window [of q0] by simp_all
  from a have x: "?page * ?limit \<le> 2 ^ 53" by simp
  have l: "s_limit ?s = ?limit" using offset_of_exact(2) [OF v(2,3) x] by simp
  have w: "0 < s_limit ?s" unfolding l by (rule v(1))
  have o: "s_offset ?s = (?page - 1) * s_limit ?s"
    unfolding l using offset_of_exact(3) [OF v(2,3) x] by simp
  from window_total [OF w v(2) o p(2) refl] p(1,3)
  show "\<exists>p. response (get_jobs e d u q0) = Json200 p \<and>
        (let n = length (matching d (e_now e) (get_where (sanitize_query q0)));
             page = or_default (q_page q0) 1;
             limit = or_default (q_limit q0) 20
         in (page \<le> total_pages n limit \<longrightarrow> p_total (pagination p) = n \<and> jobs p \<noteq> [])
            \<and> (total_pages n limit < page \<longrightarrow> jobs p = []))"
    unfolding l by (simp add: Let_def)
next
  assume a: "valid_body b0 \<and> accepts e (search_statement u b0)
             \<and> or_default (b_page b0) 1 * or_default (b_limit b0) 20 \<le> 2 ^ 53"
  let ?s = "search_statement u (sanitize_body b0)"
  let ?page = "or_default (b_page b0) 1" and ?limit = "or_default (b_limit b0) 20"
  from a search_jobs_success [of b0 e u d] obtain p where
    p: "response (search_jobs e d u b0) = Json200 p" "jobs p = run_select e d ?s"
       "p_total (pagination p) = totalCount_of (jobs p)" by blast
  from a have v: "0 < ?limit" "1 \<le> ?page" "1 \<le> ?limit"
    using valid_body_window [of b0] by simp_all
  from a have x: "?page * ?limit \<le> 2 ^ 53" by simp
  have l: "s_limit ?s = ?limit" using offset_of_exact(2) [OF v(2,3) x] by simp
  have w: "0 < s_limit ?s" unfolding l by (rule v(1))
  have o: "s_offset ?s = (?page - 1) * s_limit ?s"
    unfolding l using offset_of_exact(3) [OF v(2,3) x] by simp
  from window_total [OF w v(2) o p(2) refl] p(1,3)
  show "\<exists>p. response (search_jobs e d u b0) = Json200 p \<and>
        (let n = length (matching d (e_now e) (search_where (sanitize_body b0)));
             page = or_default (b_page b0) 1;
             limit = or_default (b_limit b0) 20
         in (page \<le> total_pages n limit \<longrightarrow> p_total (pagination p) = n \<and> jobs p \<noteq> [])
            \<and> (total_pages n limit < page \<longrightarrow> jobs p = []))"
    unfolding l by (simp add: Let_def)
qed

text \<open>
  The page is a valid input whatever its size, but the statement fails once the offset
  is beyond what the driver sends: the response is then status 500, not an empty page.
\<close>

lemma page_beyond_driver_bound:
  "valid_query (ex_query\<lparr>q_page := Some 99999999999999999999\<rparr>)
   \<and> response (get_jobs ex_env ex_db None (ex_query\<lparr>q_page := Some 99999999999999999999\<rparr>))
       = Status500
   \<and> valid_body (ex_body\<lparr>b_page := Some 99999999999999999999\<rparr>)
   \<and> response (search_jobs ex_env ex_db None (ex_body\<lparr>b_page := Some 99999999999999999999\<rparr>))
       = Status500"
  by code_simp

text \<open>
  C1 claims that the total of the pagination envelope always equals the number of rows
  that match the predicates of the request. The handlers break it on every page past
  the last one: they read the total from the first row of the page and report 0 when
  the page is empty. On the example the listing reports total 2 on page 1 and total 0
  on page 2 of the same request, while two rows match; the search reports 3 and 0,
  while three rows match.
\<close>

theorem total_count_zero_past_last_page:
  "valid_query (ex_query\<lparr>q_page := Some 2\<rparr>)
   \<and> page_total (get_jobs ex_env ex_db None ex_query) = Some 2
   \<and> page_total (get_jobs ex_env ex_db None (ex_query\<lparr>q_page := Some 2\<rparr>)) = Some 0
   \<and> length (matching ex_db (e_now ex_env)
                (get_where (sanitize_query (ex_query\<lparr>q_page := Some 2\<rparr>)))) = 2
   \<and> valid_body (ex_body\<lparr>b_page := Some 2\<rparr>)
   \<and> page_total (search_jobs ex_env ex_db None ex_body) = Some 3
   \<and> page_total (search_jobs ex_env ex_db None (ex_body\<lparr>b_page := Some 2\<rparr>)) = Some 0
   \<and> length (matching ex_db (e_now ex_env)
                (search_where (sanitize_body (ex_body\<lparr>b_page := Some 2\<rparr>)))) = 3"
  by code_simp

section \<open>C2: the deadline condition\<close>

text \<open>
  The listing endpoint appends the deadline condition last, whatever the client sends:
  every row it returns is active and, if it has a deadline, the deadline is not before
  the start of the current day.
\<close>

lemma listing_rows_open:
  assumes "response (get_jobs e d u q0) = Json200 p" and "r \<in> set (jobs p)"
  shows "ci_eq (status (r_job r)) ''active''
         \<and> (case application_deadline (r_job r) of None \<Rightarrow> True
             | Some t \<Rightarrow> cast_date (e_now e) \<le> t)"
proof -
  from get_jobs_Json200D [OF assms(1)]
  have v: "valid_query q0" "accepts e (get_statement u q0)" by simp_all
  from get_jobs_success [OF v, of d] assms
  have "r \<in> set (run_select e d (get_statement u (sanitize_query q0)))" by auto
  from set_run_select [OF this]
  have "satisfies (e_now e) (get_where (sanitize_query q0)) (core r)" by simp
  then show ?thesis
    by (auto simp: get_where_def satisfies_append satisfies_Cons core_def split: option.splits)
qed

text \<open>
  The search endpoint returns active rows only, but its WHERE clause has no deadline
  condition: without filters it holds of every active row.
\<close>

lemma search_rows_active:
  assumes "response (search_jobs e d u b0) = Json200 p" and "r \<in> set (jobs p)"
  shows "ci_eq (status (r_job r)) ''active''"
proof -
  from search_jobs_Json200D [OF assms(1)]
  have v: "valid_body b0" "accepts e (search_statement u b0)" by simp_all
  from search_jobs_success [OF v, of d] assms
  have "r \<in> set (run_select e d (search_statement u (sanitize_body b0)))" by auto
  from set_run_select [OF this]
  have "satisfies (e_now e) (search_where (sanitize_body b0)) (core r)" by simp
  then show ?thesis
    by (simp add: search_where_def satisfies_append satisfies_Cons core_def)
qed

lemma search_without_filters_ignores_deadline:
  "satisfies now (search_where (sanitize_body ex_body)) (j, c) \<longleftrightarrow> ci_eq (status j) ''active''"
  by (simp add: search_where_def sanitize_body_def ex_body_def if_text_def if_list_def
      salary_clauses_def satisfies_def)

text \<open>
  C2 claims that every search, on the listing and on the advanced search endpoint
  alike, returns only active listings whose deadline, if set, has not passed. The
  advanced search endpoint breaks it: on the example, read on day 100, the search
  without any filter returns job 3, whose deadline was day 90, while the listing
  endpoint leaves it out.
\<close>

theorem search_returns_job_past_deadline:
  "page_ids (search_jobs ex_env ex_db None ex_body) = Some [2, 1, 3]
   \<and> application_deadline ex_job3 = Some 7776000
   \<and> cast_date (e_now ex_env) = 8640000
   \<and> page_ids (get_jobs ex_env ex_db None ex_query) = Some [2, 1]"
  by code_simp

section \<open>C3: trending\<close>

lemma ord_le_trending:
  "ord_le trending_order_by a b \<longleftrightarrow>
     score (views_count (fst b)) (current_applications (fst b))
       < score (views_count (fst a)) (current_applications (fst a))
     \<or> (score (views_count (fst a)) (current_applications (fst a))
          = score (views_count (fst b)) (current_applications (fst b))
        \<and> posted_date (fst b) \<le> posted_date (fst a))"
  by (cases a; cases b) (auto simp: trending_order_by_def)

text \<open>
  C3, as the spec states it, fails on its own example: 0.7 * 100 + 0.3 * 10 is 73, not 82.
\<close>

theorem trending_score_not_82: "\<not> (score 100 10 = 82 \<and> score 80 40 = 68)"
  by (simp add: score_def)

text \<open>
  C3, amended. When the store answers the statement and the limit is a non-negative
  number (10 when absent), trending returns at most that many rows, every one an
  active listing of the joined tables posted within the last 30 days, ordered by
  score = 0.7 * views + 0.3 * applications descending and, on equal scores, by posted
  date descending; it leaves the tables as they were. For (views, applications) = (100, 10) and (80, 40)
  the scores are 73 and 68, so the first ranks higher.
\<close>

theorem trending_ranked_by_score:
  assumes "accepts e (trending_statement n)" and "or_default lim0 (Num 10) = Num n"
      and "0 \<le> n"
  shows "\<exists>rows. response (trending_popular e d lim0) = Json200 rows
           \<and> length rows \<le> nat n
           \<and> (\<forall>r \<in> set rows. r \<in> set (joined d) \<and> ci_eq (status (fst r)) ''active''
                  \<and> e_now e - 30 * 86400 \<le> posted_date (fst r))
           \<and> (\<forall>i j. i < j \<and> j < length rows \<longrightarrow>
                  score (views_count (fst (rows ! j))) (current_applications (fst (rows ! j)))
                    < score (views_count (fst (rows ! i))) (current_applications (fst (rows ! i)))
                  \<or> (score (views_count (fst (rows ! i))) (current_applications (fst (rows ! i)))
                       = score (views_count (fst (rows ! j))) (current_applications (fst (rows ! j)))
                     \<and> posted_date (fst (rows ! j)) \<le> posted_date (fst (rows ! i))))
           \<and> db_after (trending_popular e d lim0) = d
           \<and> score 100 10 = 73 \<and> score 80 40 = 68 \<and> score 80 40 < score 100 10"
proof -
  define rows where
    "rows = take (nat n) (ordered (e_plan e (trending_statement n)) trending_order_by
               (matching d (e_now e) trending_where))"
  have resp: "response (trending_popular e d lim0) = Json200 rows"
    and dba: "db_after (trending_popular e d lim0) = d"
    using assms by (simp_all add: trending_popular_def Let_def rows_def)
  have len: "length rows \<le> nat n" by (simp add: rows_def)
  have mem: "r \<in> set (joined d) \<and> ci_eq (status (fst r)) ''active''
               \<and> e_now e - 30 * 86400 \<le> posted_date (fst r)" if "r \<in> set rows" for r
  proof -
    from that have "r \<in> set (matching d (e_now e) trending_where)"
      unfolding rows_def by (metis in_set_takeD set_ordered)
    then have "r \<in> set (joined d)" "satisfies (e_now e) trending_where r"
      by (simp_all add: matching_def)
    moreover obtain j c where "r = (j, c)" by (cases r)
    ultimately show ?thesis
      by (simp add: trending_where_def satisfies_def days_ago_def day_def)
  qed
  have "sorted_wrt (ord_le trending_order_by) rows"
    unfolding rows_def by (intro sorted_wrt_take sorted_ordered)
  then have srt: "ord_le trending_order_by (rows ! i) (rows ! j)" if "i < j" "j < length rows" for i j
    using that by (simp add: sorted_wrt_iff_nth_less)
  have sc: "score 100 10 = 73" "score 80 40 = 68" "score 80 40 < score 100 10"
    by (simp_all add: score_def)
  show ?thesis
    using resp dba len mem srt [unfolded ord_le_trending] sc by blast
qed

text \<open>C3, amended, on the example: the three jobs come out in the order 1, 2, 3.\<close>

theorem trending_ranked_by_score_witness:
  "accepts ex_env (trending_statement 10) \<and> or_default None (Num 10) = Num 10
   \<and> (0::int) \<le> 10
   \<and> (\<exists>rows. response (trending_popular ex_env ex_db None) = Json200 rows
         \<and> length rows \<le> 10 \<and> map (\<lambda>r. job_id (fst r)) rows = [1, 2, 3])
   \<and> db_after (trending_popular ex_env ex_db None) = ex_db"
proof -
  have h: "accepts ex_env (trending_statement 10)" "or_default None (Num 10) = Num 10"
          "(0::int) \<le> 10"
    by code_simp+
  have ids: "map_option (map (\<lambda>r. job_id (fst r))) (payload_of (trending_popular ex_env ex_db None))
               = Some [1, 2, 3]"
    by code_simp
  from trending_ranked_by_score [OF h, of ex_db] obtain rows where
    r: "response (trending_popular ex_env ex_db None) = Json200 rows" "length rows \<le> nat 10"
       "db_after (trending_popular ex_env ex_db None) = ex_db"
    by blast
  from r(1) ids have "map (\<lambda>r. job_id (fst r)) rows = [1, 2, 3]"
    by (simp add: payload_of_def)
  with r h show ?thesis by auto
qed

section \<open>C4: the ORDER BY keys\<close>

text \<open>
  C4, as the spec states it, fails: no route appends a row identifier to ORDER BY, and
  only the relevance order has the posted date as a second key. Sorted by
  \<^verbatim>\<open>posted_date\<close>, jobs 1 and 3 of the example tie although they are different rows.
\<close>

theorem order_ties_on_distinct_rows:
  "valid_body (ex_body\<lparr>b_sort_by := Some ''posted_date''\<rparr>)
   \<and> search_order_by (sanitize_body (ex_body\<lparr>b_sort_by := Some ''posted_date''\<rparr>))
       = [(ByPostedDate, DESC)]
   \<and> ord_le [(ByPostedDate, DESC)] (ex_job1, ex_company) (ex_job3, ex_company)
   \<and> ord_le [(ByPostedDate, DESC)] (ex_job3, ex_company) (ex_job1, ex_company)
   \<and> job_id ex_job1 \<noteq> job_id ex_job3"
  by code_simp

text \<open>
  C4, amended. On a valid request whose statement the store answers, the rows of the
  page are sorted by the keys derived from the sort key and by nothing else. Listing
  endpoint: the one column chosen by \<^verbatim>\<open>sort_by\<close>
  (\<^verbatim>\<open>salary_min\<close>, \<^verbatim>\<open>title\<close>, \<^verbatim>\<open>company_name\<close>, otherwise the posted date) in the
  requested direction (descending unless \<^verbatim>\<open>asc\<close>). Search endpoint: posted date
  descending; or salary maximum then salary minimum, both descending; or company name
  ascending; or, for relevance, the tier ascending then the posted date descending when
  keywords are given, and the posted date descending when they are not. The relation is
  total and transitive (a total preorder); rows that tie on the keys are not ordered by it.
\<close>

theorem results_sorted_by_sort_key:
  "(valid_query q0 \<and> accepts e (get_statement u q0) \<longrightarrow>
      (\<exists>p. response (get_jobs e d u q0) = Json200 p
         \<and> sorted_wrt
             (ord_le [(if q_sort_by q0 = Some ''salary_min'' then BySalaryMin
                       else if q_sort_by q0 = Some ''title'' then ByTitle
                       else if q_sort_by q0 = Some ''company_name'' then ByCompanyName
                       else ByPostedDate,
                       if q_sort_order q0 = Some ''asc'' then ASC else DESC)])
             (map core (jobs p))))
   \<and> (valid_body b0 \<and> accepts e (search_statement u b0) \<longrightarrow>
      (\<exists>p. response (search_jobs e d u b0) = Json200 p
         \<and> sorted_wrt
             (ord_le (if b_sort_by b0 = Some ''posted_date'' then [(ByPostedDate, DESC)]
                      else if b_sort_by b0 = Some ''salary''
                        then [(BySalaryMax, DESC), (BySalaryMin, DESC)]
                      else if b_sort_by b0 = Some ''company_name'' then [(ByCompanyName, ASC)]
                      else (case b_keywords b0 of
                              None \<Rightarrow> [(ByPostedDate, DESC)]
                            | Some s \<Rightarrow>
                                if trim s \<noteq> []
                                then [(ByTier (wrap (trim s)), ASC), (ByPostedDate, DESC)]
                                else [(ByPostedDate, DESC)])))
             (map core (jobs p))))
   \<and> (ord_le ob a b \<or> ord_le ob b a)
   \<and> (ord_le ob a b \<and> ord_le ob b c \<longrightarrow> ord_le ob a c)"
proof -
  have g: "get_order_by (sanitize_query q0)
             = [(if q_sort_by q0 = Some ''salary_min'' then BySalaryMin
                 else if q_sort_by q0 = Some ''title'' then ByTitle
                 else if q_sort_by q0 = Some ''company_name'' then ByCompanyName
                 else ByPostedDate,
                 if q_sort_order q0 = Some ''asc'' then ASC else DESC)]"
    by (simp add: get_order_by_def get_sort_expr_def dir_of_def or_default_def
        split: option.splits)
  have s: "search_order_by (sanitize_body b0)
             = (if b_sort_by b0 = Some ''posted_date'' then [(ByPostedDate, DESC)]
                else if b_sort_by b0 = Some ''salary''
                  then [(BySalaryMax, DESC), (BySalaryMin, DESC)]
                else if b_sort_by b0 = Some ''company_name'' then [(ByCompanyName, ASC)]
                else (case b_keywords b0 of
                        None \<Rightarrow> [(ByPostedDate, DESC)]
                      | Some s \<Rightarrow>
                          if trim s \<noteq> []
                          then [(ByTier (wrap (trim s)), ASC), (ByPostedDate, DESC)]
                          else [(ByPostedDate, DESC)]))"
    by (simp add: search_order_by_def sanitize_body_def or_default_def Let_def
        split: option.splits)
  show ?thesis
    using get_jobs_sorted [of q0 e u d] search_jobs_sorted [of b0 e u d]
      ord_le_total [of ob a b] ord_le_trans [of ob a b c]
    unfolding g s by blast
qed

text \<open>C4, amended, on the example: both endpoints, without parameters, sort by posted date.\<close>

theorem results_sorted_by_sort_key_witness:
  "valid_query ex_query \<and> accepts ex_env (get_statement None ex_query)
   \<and> valid_body ex_body \<and> accepts ex_env (search_statement None ex_body)
   \<and> (\<exists>p. response (get_jobs ex_env ex_db None ex_query) = Json200 p
         \<and> sorted_wrt (ord_le [(ByPostedDate, DESC)]) (map core (jobs p)))
   \<and> (\<exists>p. response (search_jobs ex_env ex_db None ex_body) = Json200 p
         \<and> sorted_wrt (ord_le [(ByPostedDate, DESC)]) (map core (jobs p)))"
proof -
  have h: "valid_query ex_query \<and> accepts ex_env (get_statement None ex_query)"
          "valid_body ex_body \<and> accepts ex_env (search_statement None ex_body)"
    by code_simp+
  have k: "q_sort_by ex_query = None" "q_sort_order ex_query = None"
          "b_sort_by ex_body = None" "b_keywords ex_body = None"
    by code_simp+
  from results_sorted_by_sort_key
         [where ?q0.0 = ex_query and e = ex_env and d = ex_db and u = None and ?b0.0 = ex_body] h
  show ?thesis by (simp add: k)
qed

section \<open>C5: sorting by salary\<close>

text \<open>
  C5, as the spec states it, fails on the listing endpoint, whose salary key is
  \<^verbatim>\<open>salary_min\<close> and follows the requested order: ascending, job 2 (no salary) comes
  before job 1, which the order ``maximum descending'' forbids.
\<close>

theorem listing_salary_sort_follows_sort_order:
  "valid_query (ex_query\<lparr>q_sort_by := Some ''salary_min'', q_sort_order := Some ''asc''\<rparr>)
   \<and> get_order_by (sanitize_query
         (ex_query\<lparr>q_sort_by := Some ''salary_min'', q_sort_order := Some ''asc''\<rparr>))
       = [(BySalaryMin, ASC)]
   \<and> page_ids (get_jobs ex_env ex_db None
         (ex_query\<lparr>q_sort_by := Some ''salary_min'', q_sort_order := Some ''asc''\<rparr>))
       = Some [2, 1]
   \<and> salary_max ex_job2 = None \<and> salary_max ex_job1 = Some 90000
   \<and> \<not> ord_le [(BySalaryMax, DESC), (BySalaryMin, DESC)]
         (ex_job2, ex_company) (ex_job1, ex_company)"
  by code_simp

lemma search_jobs_ignores_sort_order:
  "search_jobs e d u (b0\<lparr>b_sort_order := so\<rparr>) = search_jobs e d u b0"
proof -
  have v: "valid_body (b0\<lparr>b_sort_order := so\<rparr>) = valid_body b0"
    by (simp add: valid_body_def)
  have f: "sanitize_body (b0\<lparr>b_sort_order := so\<rparr>) = (sanitize_body b0)\<lparr>b_sort_order := so\<rparr>"
    by (simp add: sanitize_body_def)
  have s: "search_statement u ((sanitize_body b0)\<lparr>b_sort_order := so\<rparr>)
             = search_statement u (sanitize_body b0)"
    by (simp add: search_statement_def search_where_def search_order_by_def Let_def)
  show ?thesis
    unfolding search_jobs_def v f s Let_def by (simp split: option.splits)
qed

text \<open>
  C5, amended, for valid requests whose statement the store answers. On the search endpoint the sort key \<^verbatim>\<open>salary\<close> orders the page by
  salary maximum descending, then salary minimum descending, and a \<^verbatim>\<open>sort_order\<close> in
  the body changes nothing at all. On the listing endpoint the salary key is
  \<^verbatim>\<open>salary_min\<close> and orders the page by salary minimum alone, ascending when the
  order \<^verbatim>\<open>asc\<close> is requested and descending otherwise.
\<close>

theorem salary_sort_order:
  "(valid_body b0 \<and> accepts e (search_statement u b0) \<and> b_sort_by b0 = Some ''salary'' \<longrightarrow>
      (\<exists>p. response (search_jobs e d u (b0\<lparr>b_sort_order := so\<rparr>)) = Json200 p
         \<and> sorted_wrt (ord_le [(BySalaryMax, DESC), (BySalaryMin, DESC)]) (map core (jobs p))
         \<and> search_jobs e d u (b0\<lparr>b_sort_order := so\<rparr>) = search_jobs e d u b0))
   \<and> (valid_query q0 \<and> accepts e (get_statement u q0)
        \<and> q_sort_by q0 = Some ''salary_min'' \<longrightarrow>
      (\<exists>p. response (get_jobs e d u q0) = Json200 p
         \<and> sorted_wrt (ord_le [(BySalaryMin, if q_sort_order q0 = Some ''asc'' then ASC else DESC)])
             (map core (jobs p))))"
proof (intro conjI impI)
  assume a: "valid_body b0 \<and> accepts e (search_statement u b0) \<and> b_sort_by b0 = Some ''salary''"
  then have "search_order_by (sanitize_body b0) = [(BySalaryMax, DESC), (BySalaryMin, DESC)]"
    by (simp add: search_order_by_def or_default_def)
  with a search_jobs_sorted [of b0 e u d]
  show "\<exists>p. response (search_jobs e d u (b0\<lparr>b_sort_order := so\<rparr>)) = Json200 p
         \<and> sorted_wrt (ord_le [(BySalaryMax, DESC), (BySalaryMin, DESC)]) (map core (jobs p))
         \<and> search_jobs e d u (b0\<lparr>b_sort_order := so\<rparr>) = search_jobs e d u b0"
    by (simp add: search_jobs_ignores_sort_order)
next
  assume a: "valid_query q0 \<and> accepts e (get_statement u q0)
               \<and> q_sort_by q0 = Some ''salary_min''"
  then have "get_order_by (sanitize_query q0)
               = [(BySalaryMin, if q_sort_order q0 = Some ''asc'' then ASC else DESC)]"
    by (simp add: get_order_by_def get_sort_expr_def dir_of_def or_default_def
        split: option.splits)
  with a get_jobs_sorted [of q0 e u d]
  show "\<exists>p. response (get_jobs e d u q0) = Json200 p
         \<and> sorted_wrt (ord_le [(BySalaryMin, if q_sort_order q0 = Some ''asc'' then ASC else DESC)])
             (map core (jobs p))"
    by simp
qed

text \<open>
  C5, amended, on the example: the search sorted by salary returns jobs 1, 3, 2 with or
  without \<^verbatim>\<open>sort_order = asc\<close>.
\<close>

theorem salary_sort_order_witness:
  "valid_body (ex_body\<lparr>b_sort_by := Some ''salary''\<rparr>)
   \<and> accepts ex_env (search_statement None (ex_body\<lparr>b_sort_by := Some ''salary''\<rparr>))
   \<and> valid_query (ex_query\<lparr>q_sort_by := Some ''salary_min''\<rparr>)
   \<and> accepts ex_env (get_statement None (ex_query\<lparr>q_sort_by := Some ''salary_min''\<rparr>))
   \<and> search_jobs ex_env ex_db None (ex_body\<lparr>b_sort_by := Some ''salary'', b_sort_order := Some ''asc''\<rparr>)
       = search_jobs ex_env ex_db None (ex_body\<lparr>b_sort_by := Some ''salary''\<rparr>)
   \<and> page_ids (search_jobs ex_env ex_db None (ex_body\<lparr>b_sort_by := Some ''salary''\<rparr>))
       = Some [1, 3, 2]
   \<and> (\<exists>p. response (get_jobs ex_env ex_db None (ex_query\<lparr>q_sort_by := Some ''salary_min''\<rparr>))
             = Json200 p
         \<and> sorted_wrt (ord_le [(BySalaryMin, DESC)]) (map core (jobs p)))"
proof -
  have h: "valid_body (ex_body\<lparr>b_sort_by := Some ''salary''\<rparr>)
             \<and> accepts ex_env (search_statement None (ex_body\<lparr>b_sort_by := Some ''salary''\<rparr>))
             \<and> b_sort_by (ex_body\<lparr>b_sort_by := Some ''salary''\<rparr>) = Some ''salary''"
          "valid_query (ex_query\<lparr>q_sort_by := Some ''salary_min''\<rparr>)
             \<and> accepts ex_env (get_statement None (ex_query\<lparr>q_sort_by := Some ''salary_min''\<rparr>))
             \<and> q_sort_by (ex_query\<lparr>q_sort_by := Some ''salary_min''\<rparr>) = Some ''salary_min''"
    by code_simp+
  have k: "q_sort_order (ex_query\<lparr>q_sort_by := Some ''salary_min''\<rparr>) = None"
    by code_simp
  have ids: "page_ids (search_jobs ex_env ex_db None (ex_body\<lparr>b_sort_by := Some ''salary''\<rparr>))
               = Some [1, 3, 2]"
    by code_simp
  from salary_sort_order
         [where ?b0.0 = "ex_body\<lparr>b_sort_by := Some ''salary''\<rparr>" and e = ex_env and d = ex_db
            and u = None and so = "Some ''asc''"
            and ?q0.0 = "ex_query\<lparr>q_sort_by := Some ''salary_min''\<rparr>"] h ids
  show ?thesis by (auto simp: k)
qed

section \<open>C6: salary bounds let an unset salary pass\<close>

lemma holds_salary_min:
  "holds now (Or (SalaryMinGe m) SalaryMinIsNull) r
     \<longleftrightarrow> (case salary_min (fst r) of None \<Rightarrow> True | Some s \<Rightarrow> m \<le> s)"
  by (simp split: option.splits)

lemma holds_salary_max:
  "holds now (Or (SalaryMaxLe m) SalaryMaxIsNull) r
     \<longleftrightarrow> (case salary_max (fst r) of None \<Rightarrow> True | Some s \<Rightarrow> s \<le> m)"
  by (simp split: option.splits)

lemma get_where_salary:
  "satisfies now (get_where q) r \<longleftrightarrow>
     satisfies now (get_where (q\<lparr>q_salary_min := None, q_salary_max := None\<rparr>)) r
     \<and> (case q_salary_min q of None \<Rightarrow> True
         | Some m \<Rightarrow> (case salary_min (fst r) of None \<Rightarrow> True | Some s \<Rightarrow> m \<le> s))
     \<and> (case q_salary_max q of None \<Rightarrow> True
         | Some m \<Rightarrow> (case salary_max (fst r) of None \<Rightarrow> True | Some s \<Rightarrow> s \<le> m))"
  unfolding get_where_def satisfies_append satisfies_Cons
  by (cases "q_salary_min q"; cases "q_salary_max q")
     (auto simp: satisfies_Nil satisfies_Cons holds_salary_min holds_salary_max
        simp del: holds.simps)

lemma satisfies_salary_clauses:
  "satisfies now (salary_clauses v) r \<longleftrightarrow>
     (case v of
        None \<Rightarrow> True
      | Some sr \<Rightarrow>
          (case sr_min sr of None \<Rightarrow> True
           | Some m \<Rightarrow> m = 0 \<or> (case salary_min (fst r) of None \<Rightarrow> True | Some s \<Rightarrow> m \<le> s))
          \<and> (case sr_max sr of None \<Rightarrow> True
             | Some m \<Rightarrow> m = 0 \<or> (case salary_max (fst r) of None \<Rightarrow> True | Some s \<Rightarrow> s \<le> m)))"
  unfolding salary_clauses_def
  by (auto simp: satisfies_Nil satisfies_Cons satisfies_append holds_salary_min holds_salary_max
      simp del: holds.simps split: option.splits)

lemma search_where_salary:
  "satisfies now (search_where b) r \<longleftrightarrow>
     satisfies now (search_where (b\<lparr>b_salary_range := None\<rparr>)) r
     \<and> satisfies now (salary_clauses (b_salary_range b)) r"
  unfolding search_where_def satisfies_append satisfies_Cons
  by (auto simp: salary_clauses_def satisfies_Nil)

text \<open>
  C6. On both endpoints the WHERE clause with salary bounds is the WHERE clause without
  them plus one condition per bound given: the salary minimum of the row is unset or at
  least the minimum bound, and the salary maximum of the row is unset or at most the
  maximum bound (on the search endpoint a bound that is the number 0 is falsy and adds
  no condition). In particular a row whose salary minimum is unset matches a request
  with the minimum bound 50000 exactly when it matches the same request without it.
\<close>

theorem salary_range_open:
  "(satisfies now (get_where q) r \<longleftrightarrow>
      satisfies now (get_where (q\<lparr>q_salary_min := None, q_salary_max := None\<rparr>)) r
      \<and> (case q_salary_min q of None \<Rightarrow> True
          | Some m \<Rightarrow> (case salary_min (fst r) of None \<Rightarrow> True | Some s \<Rightarrow> m \<le> s))
      \<and> (case q_salary_max q of None \<Rightarrow> True
          | Some m \<Rightarrow> (case salary_max (fst r) of None \<Rightarrow> True | Some s \<Rightarrow> s \<le> m)))
   \<and> (satisfies now (search_where b) r \<longleftrightarrow>
      satisfies now (search_where (b\<lparr>b_salary_range := None\<rparr>)) r
      \<and> (case b_salary_range b of
            None \<Rightarrow> True
          | Some sr \<Rightarrow>
              (case sr_min sr of None \<Rightarrow> True
               | Some m \<Rightarrow> m = 0 \<or> (case salary_min (fst r) of None \<Rightarrow> True | Some s \<Rightarrow> m \<le> s))
              \<and> (case sr_max sr of None \<Rightarrow> True
                 | Some m \<Rightarrow> m = 0 \<or> (case salary_max (fst r) of None \<Rightarrow> True | Some s \<Rightarrow> s \<le> m))))
   \<and> (salary_min (fst r) = None \<longrightarrow>
       (r \<in> set (matching d now
                  (search_where (b\<lparr>b_salary_range := Some \<lparr>sr_min = Some 50000, sr_max = None\<rparr>\<rparr>)))
        \<longleftrightarrow> r \<in> set (matching d now (search_where (b\<lparr>b_salary_range := None\<rparr>))))
       \<and> (r \<in> set (matching d now (get_where (q\<lparr>q_salary_min := Some 50000, q_salary_max := None\<rparr>)))
        \<longleftrightarrow> r \<in> set (matching d now (get_where (q\<lparr>q_salary_min := None, q_salary_max := None\<rparr>)))))"
proof -
  have a: "satisfies now (search_where b) r \<longleftrightarrow>
      satisfies now (search_where (b\<lparr>b_salary_range := None\<rparr>)) r
      \<and> (case b_salary_range b of
            None \<Rightarrow> True
          | Some sr \<Rightarrow>
              (case sr_min sr of None \<Rightarrow> True
               | Some m \<Rightarrow> m = 0 \<or> (case salary_min (fst r) of None \<Rightarrow> True | Some s \<Rightarrow> m \<le> s))
              \<and> (case sr_max sr of None \<Rightarrow> True
                 | Some m \<Rightarrow> m = 0 \<or> (case salary_max (fst r) of None \<Rightarrow> True | Some s \<Rightarrow> s \<le> m)))"
    using search_where_salary [of now b r] satisfies_salary_clauses [of now "b_salary_range b" r]
    by simp
  have b: "r \<in> set (matching d now
                  (search_where (b\<lparr>b_salary_range := Some \<lparr>sr_min = Some 50000, sr_max = None\<rparr>\<rparr>)))
        \<longleftrightarrow> r \<in> set (matching d now (search_where (b\<lparr>b_salary_range := None\<rparr>)))"
    if "salary_min (fst r) = None"
    using that
      search_where_salary [of now "b\<lparr>b_salary_range := Some \<lparr>sr_min = Some 50000, sr_max = None\<rparr>\<rparr>" r]
    by (simp add: matching_def satisfies_salary_clauses)
  have c: "r \<in> set (matching d now (get_where (q\<lparr>q_salary_min := Some 50000, q_salary_max := None\<rparr>)))
        \<longleftrightarrow> r \<in> set (matching d now (get_where (q\<lparr>q_salary_min := None, q_salary_max := None\<rparr>)))"
    if "salary_min (fst r) = None"
    using that get_where_salary [of now "q\<lparr>q_salary_min := Some 50000, q_salary_max := None\<rparr>" r]
    by (simp add: matching_def)
  from get_where_salary [of now q r] a b c show ?thesis by blast
qed

text \<open>
  C6 on the example: job 2 states no salary and is among the rows the search with
  minimum 50000 matches and returns.
\<close>

theorem salary_range_open_witness:
  "salary_min (fst (ex_job2, ex_company)) = None
   \<and> (ex_job2, ex_company) \<in> set (matching ex_db (e_now ex_env)
         (search_where (ex_body\<lparr>b_salary_range := Some \<lparr>sr_min = Some 50000, sr_max = None\<rparr>\<rparr>)))
   \<and> page_ids (search_jobs ex_env ex_db None
         (ex_body\<lparr>b_salary_range := Some \<lparr>sr_min = Some 50000, sr_max = None\<rparr>\<rparr>)) = Some [2, 1]"
proof -
  have h: "salary_min (fst (ex_job2, ex_company)) = None" by code_simp
  have m: "(ex_job2, ex_company) \<in> set (matching ex_db (e_now ex_env)
             (search_where (ex_body\<lparr>b_salary_range := None\<rparr>)))"
    by code_simp
  have ids: "page_ids (search_jobs ex_env ex_db None
         (ex_body\<lparr>b_salary_range := Some \<lparr>sr_min = Some 50000, sr_max = None\<rparr>\<rparr>)) = Some [2, 1]"
    by code_simp
  from salary_range_open [of "e_now ex_env" ex_query "(ex_job2, ex_company)" ex_body ex_db] h m ids
  show ?thesis by blast
qed

section \<open>C7: ordering by relevance\<close>







section \<open>C8: the keyword condition\<close>

lemma col_like_wrap:
  "plain kw \<Longrightarrow>
   col_like col (wrap kw) r \<longleftrightarrow> (case text_of col r of None \<Rightarrow> False | Some s \<Rightarrow> ci_substring kw s)"
  by (simp add: col_like_def like_wrap split: option.splits)

lemma get_where_search:
  "satisfies now (get_where q) r \<longleftrightarrow>
     satisfies now (get_where (q\<lparr>q_search := None\<rparr>)) r
     \<and> (case q_search q of None \<Rightarrow> True
         | Some s \<Rightarrow> s = [] \<or> holds now (get_search_clause s) r)"
  unfolding get_where_def satisfies_append satisfies_Cons
  by (auto simp: if_text_def satisfies_Nil satisfies_Cons simp del: holds.simps
      split: option.splits)

lemma search_where_keywords:
  "satisfies now (search_where b) r \<longleftrightarrow>
     satisfies now (search_where (b\<lparr>b_keywords := None\<rparr>)) r
     \<and> (case b_keywords b of None \<Rightarrow> True
         | Some s \<Rightarrow> s = [] \<or> holds now (keywords_clause s) r)"
  unfolding search_where_def satisfies_append satisfies_Cons
  by (auto simp: if_text_def satisfies_Nil satisfies_Cons simp del: holds.simps
      split: option.splits)

lemma ci_substring_single:
  assumes "ci_substring [k] s"
  shows "collate k \<in> set (map collate s)"
proof -
  from assms obtain p m q where s: "s = p @ m @ q" and m: "map collate m = [collate k]"
    unfolding ci_substring_def ci_eq_def by (elim exE conjE) simp
  from m obtain x where "m = [x]" "collate x = collate k" by auto
  with s show ?thesis by auto
qed

text \<open>
  The keyword is spliced into the LIKE pattern as it is, so a wildcard character in it
  is read as a wildcard: the keyword \<^verbatim>\<open>_\<close> selects job 1, which contains no underscore.
\<close>

lemma keyword_wildcard_is_a_pattern:
  "\<not> plain ''_''
   \<and> holds (e_now ex_env) (get_search_clause ''_'') (ex_job1, ex_company)
   \<and> \<not> ci_substring ''_'' (title ex_job1)
   \<and> \<not> ci_substring ''_'' (description ex_job1)
   \<and> \<not> ci_substring ''_'' (company_name ex_company)"
proof -
  have a: "\<not> plain ''_''"
          "holds (e_now ex_env) (get_search_clause ''_'') (ex_job1, ex_company)"
    by code_simp+
  have n: "collate CHR ''_'' \<notin> set (map collate (title ex_job1))"
          "collate CHR ''_'' \<notin> set (map collate (description ex_job1))"
          "collate CHR ''_'' \<notin> set (map collate (company_name ex_company))"
    by code_simp+
  from a n ci_substring_single [of "CHR ''_''"] show ?thesis by blast
qed

text \<open>
  C8, as the spec states it, fails on the search endpoint, which also matches the
  keywords against the requirements: ``python'' selects job 3, which names it in none
  of title, description and company name.
\<close>

theorem keywords_match_requirements_only:
  "page_ids (search_jobs ex_env ex_db None (ex_body\<lparr>b_keywords := Some ''python''\<rparr>)) = Some [3]
   \<and> holds (e_now ex_env) (keywords_clause ''python'') (ex_job3, ex_company)
   \<and> \<not> ci_substring ''python'' (title ex_job3)
   \<and> \<not> ci_substring ''python'' (description ex_job3)
   \<and> \<not> ci_substring ''python'' (company_name ex_company)"
proof -
  have p: "plain ''python''" by code_simp
  have a: "page_ids (search_jobs ex_env ex_db None (ex_body\<lparr>b_keywords := Some ''python''\<rparr>))
             = Some [3]"
          "holds (e_now ex_env) (keywords_clause ''python'') (ex_job3, ex_company)"
    by code_simp+
  have n: "\<not> like (title ex_job3) (wrap ''python'')"
          "\<not> like (description ex_job3) (wrap ''python'')"
          "\<not> like (company_name ex_company) (wrap ''python'')"
    by code_simp+
  from a n show ?thesis unfolding like_wrap [OF p] by simp
qed

text \<open>
  C8, amended. For a keyword without LIKE wildcard characters, a row satisfies the
  keyword condition of the listing endpoint exactly when the keyword occurs, letter
  case aside, as a substring of its title, its description or its company name, and
  that of the search endpoint exactly when it occurs in one of these or in its
  requirements. The keyword is the request's text after trimming; when it is not empty,
  the WHERE clause is the clause without keywords plus this condition.
\<close>

theorem keywords_substring_match:
  assumes "plain kw"
  shows "(holds now (get_search_clause kw) (j, c) \<longleftrightarrow>
            ci_substring kw (title j) \<or> ci_substring kw (description j)
            \<or> ci_substring kw (company_name c))
         \<and> (holds now (keywords_clause kw) (j, c) \<longleftrightarrow>
            ci_substring kw (title j) \<or> ci_substring kw (description j)
            \<or> (case requirements j of None \<Rightarrow> False | Some t \<Rightarrow> ci_substring kw t)
            \<or> ci_substring kw (company_name c))
         \<and> (q_search q0 = Some s \<and> trim s = kw \<and> kw \<noteq> [] \<longrightarrow>
              (satisfies now (get_where (sanitize_query q0)) (j, c) \<longleftrightarrow>
                 satisfies now (get_where (sanitize_query (q0\<lparr>q_search := None\<rparr>))) (j, c)
                 \<and> holds now (get_search_clause kw) (j, c)))
         \<and> (b_keywords b0 = Some s \<and> trim s = kw \<and> kw \<noteq> [] \<longrightarrow>
              (satisfies now (search_where (sanitize_body b0)) (j, c) \<longleftrightarrow>
                 satisfies now (search_where (sanitize_body (b0\<lparr>b_keywords := None\<rparr>))) (j, c)
                 \<and> holds now (keywords_clause kw) (j, c)))"
proof -
  have a: "holds now (get_search_clause kw) (j, c) \<longleftrightarrow>
            ci_substring kw (title j) \<or> ci_substring kw (description j)
            \<or> ci_substring kw (company_name c)"
    by (simp add: get_search_clause_def col_like_wrap [OF assms])
  have b: "holds now (keywords_clause kw) (j, c) \<longleftrightarrow>
            ci_substring kw (title j) \<or> ci_substring kw (description j)
            \<or> (case requirements j of None \<Rightarrow> False | Some t \<Rightarrow> ci_substring kw t)
            \<or> ci_substring kw (company_name c)"
    by (simp add: keywords_clause_def col_like_wrap [OF assms])
  have c: "satisfies now (get_where (sanitize_query q0)) (j, c) \<longleftrightarrow>
                 satisfies now (get_where (sanitize_query (q0\<lparr>q_search := None\<rparr>))) (j, c)
                 \<and> holds now (get_search_clause kw) (j, c)"
    if "q_search q0 = Some s \<and> trim s = kw \<and> kw \<noteq> []"
  proof -
    have "(sanitize_query q0)\<lparr>q_search := None\<rparr> = sanitize_query (q0\<lparr>q_search := None\<rparr>)"
      by (simp add: sanitize_query_def)
    moreover have "q_search (sanitize_query q0) = Some kw"
      using that by (simp add: sanitize_query_def)
    ultimately show ?thesis
      using that get_where_search [of now "sanitize_query q0" "(j, c)"] by simp
  qed
  have d: "satisfies now (search_where (sanitize_body b0)) (j, c) \<longleftrightarrow>
                 satisfies now (search_where (sanitize_body (b0\<lparr>b_keywords := None\<rparr>))) (j, c)
                 \<and> holds now (keywords_clause kw) (j, c)"
    if "b_keywords b0 = Some s \<and> trim s = kw \<and> kw \<noteq> []"
  proof -
    have "(sanitize_body b0)\<lparr>b_keywords := None\<rparr> = sanitize_body (b0\<lparr>b_keywords := None\<rparr>)"
      by (simp add: sanitize_body_def)
    moreover have "b_keywords (sanitize_body b0) = Some kw"
      using that by (simp add: sanitize_body_def)
    ultimately show ?thesis
      using that search_where_keywords [of now "sanitize_body b0" "(j, c)"] by simp
  qed
  from a b c d show ?thesis by blast
qed

text \<open>C8, amended, on the example: ``engineer'' in the title of job 1 and the description of job 2.\<close>

theorem keywords_substring_match_witness:
  "plain ''engineer''
   \<and> holds (e_now ex_env) (get_search_clause ''engineer'') (ex_job1, ex_company)
   \<and> holds (e_now ex_env) (keywords_clause ''engineer'') (ex_job2, ex_company)
   \<and> ci_substring ''engineer'' (title ex_job1)
   \<and> ci_substring ''engineer'' (description ex_job2)"
proof -
  have p: "plain ''engineer''" by code_simp
  have "ci_eq ''Engineer'' ''engineer''" by code_simp
  moreover have "title ex_job1 = ''Software '' @ ''Engineer'' @ []" by code_simp
  ultimately have s1: "ci_substring ''engineer'' (title ex_job1)"
    unfolding ci_substring_def by blast
  have "ci_eq ''engineer'' ''engineer''" by code_simp
  moreover have "description ex_job2 = ''Work with every '' @ ''engineer'' @ []" by code_simp
  ultimately have s2: "ci_substring ''engineer'' (description ex_job2)"
    unfolding ci_substring_def by blast
  from keywords_substring_match [OF p, of "e_now ex_env" ex_job1 ex_company] s1
  have h1: "holds (e_now ex_env) (get_search_clause ''engineer'') (ex_job1, ex_company)"
    by blast
  from keywords_substring_match [OF p, of "e_now ex_env" ex_job2 ex_company] s2
  have h2: "holds (e_now ex_env) (keywords_clause ''engineer'') (ex_job2, ex_company)"
    by blast
  from p h1 h2 s1 s2 show ?thesis by simp
qed

section \<open>C9: the per-user columns\<close>

lemma user_param_iff: "user_param u \<noteq> None \<longleftrightarrow> is_jobseeker u"
  by (simp add: user_param_def is_jobseeker_def split: option.splits)

lemma user_param_not_jobseeker: "\<not> is_jobseeker u \<Longrightarrow> user_param u = None"
  using user_param_iff [of u] by simp

lemma user_param_None [simp]: "user_param None = None"
  by (simp add: user_param_def)

lemma get_statement_anonymous:
  "get_statement None q = (get_statement u q)\<lparr>s_jobseekerId := None\<rparr>"
  by (simp add: get_statement_def)

lemma search_statement_anonymous:
  "search_statement None b = (search_statement u b)\<lparr>s_jobseekerId := None\<rparr>"
  by (simp add: search_statement_def)

lemma run_select_user_columns:
  "r \<in> set (run_select e d s) \<Longrightarrow>
   (has_applied r \<noteq> None \<longleftrightarrow> s_jobseekerId s \<noteq> None)
   \<and> (is_saved r \<noteq> None \<longleftrightarrow> s_jobseekerId s \<noteq> None)"
  by (auto simp: run_select_def Let_def select_row_def)

lemma length_run_select_anonymous:
  "length (run_select e d (s\<lparr>s_jobseekerId := None\<rparr>)) = length (run_select e d s)"
  by (simp add: length_run_select)

lemma totalCount_of_length:
  "totalCount_of (run_select e d s)
     = (if length (run_select e d s) = 0 then 0 else length (matching d (e_now e) (s_where s)))"
  by (simp add: totalCount_of_run_select)

lemma totalCount_of_anonymous:
  "totalCount_of (run_select e d (s\<lparr>s_jobseekerId := None\<rparr>)) = totalCount_of (run_select e d s)"
  unfolding totalCount_of_length length_run_select_anonymous by simp

text \<open>
  Where the engine arranges the rows for the two statements alike, the pages differ in
  the per-user columns only.
\<close>

lemma strip_run_select:
  assumes "ordered (e_plan e s) (s_order_by s) (matching d (e_now e) (s_where s))
             = ordered (e_plan e (s\<lparr>s_jobseekerId := None\<rparr>)) (s_order_by s)
                 (matching d (e_now e) (s_where s))"
  shows "map strip (run_select e d s) = run_select e d (s\<lparr>s_jobseekerId := None\<rparr>)"
  using assms by (simp add: run_select_def Let_def strip_def select_row_def o_def)

lemma accepts_anonymous: "accepts e (s\<lparr>s_jobseekerId := None\<rparr>) = accepts e s"
  by (simp add: accepts_def)

lemma executeQuery_envelope:
  "map_option (\<lambda>rs. (length rs, totalCount_of rs)) (executeQuery e d (s\<lparr>s_jobseekerId := None\<rparr>))
     = map_option (\<lambda>rs. (length rs, totalCount_of rs)) (executeQuery e d s)"
  by (simp add: executeQuery_def accepts_anonymous length_run_select_anonymous
      totalCount_of_anonymous)

lemma get_jobs_envelope:
  "envelope (response (get_jobs e d u q0)) = envelope (response (get_jobs e d None q0))"
proof (cases "valid_query q0")
  case False
  then show ?thesis by (simp add: get_jobs_def)
next
  case True
  let ?s = "get_statement u (sanitize_query q0)"
  show ?thesis
    using True executeQuery_envelope [of e d ?s]
    unfolding get_jobs_def get_statement_anonymous [of _ u] Let_def envelope_def
    by (cases "executeQuery e d ?s"; cases "executeQuery e d (?s\<lparr>s_jobseekerId := None\<rparr>)")
       simp_all
qed

lemma search_jobs_envelope:
  "envelope (response (search_jobs e d u b0)) = envelope (response (search_jobs e d None b0))"
proof (cases "valid_body b0")
  case False
  then show ?thesis by (simp add: search_jobs_def)
next
  case True
  let ?s = "search_statement u (sanitize_body b0)"
  show ?thesis
    using True executeQuery_envelope [of e d ?s]
    unfolding search_jobs_def search_statement_anonymous [of _ u] Let_def envelope_def
    by (cases "executeQuery e d ?s"; cases "executeQuery e d (?s\<lparr>s_jobseekerId := None\<rparr>)")
       simp_all
qed

lemma totalCount_of_strip: "totalCount_of (map strip rs) = totalCount_of rs"
  by (cases rs) (simp_all add: totalCount_of_def strip_def)

lemma get_jobs_strip:
  assumes "ordered (e_plan e (get_statement u (sanitize_query q0)))
             (get_order_by (sanitize_query q0))
             (matching d (e_now e) (get_where (sanitize_query q0)))
           = ordered (e_plan e (get_statement None (sanitize_query q0)))
               (get_order_by (sanitize_query q0))
               (matching d (e_now e) (get_where (sanitize_query q0)))"
  shows "strip_response (response (get_jobs e d u q0)) = response (get_jobs e d None q0)"
proof (cases "valid_query q0")
  case False
  then show ?thesis by (simp add: get_jobs_def strip_response_def)
next
  case True
  let ?s = "get_statement u (sanitize_query q0)"
  have "map strip (run_select e d ?s) = run_select e d (?s\<lparr>s_jobseekerId := None\<rparr>)"
    using assms unfolding get_statement_anonymous [of _ u] by (intro strip_run_select) simp
  then have r: "run_select e d (?s\<lparr>s_jobseekerId := None\<rparr>) = map strip (run_select e d ?s)"
    by simp
  show ?thesis
    using True
    unfolding get_jobs_def get_statement_anonymous [of _ u] Let_def executeQuery_def
      accepts_anonymous r
    by (simp add: strip_response_def totalCount_of_strip)
qed

lemma search_jobs_strip:
  assumes "ordered (e_plan e (search_statement u (sanitize_body b0)))
             (search_order_by (sanitize_body b0))
             (matching d (e_now e) (search_where (sanitize_body b0)))
           = ordered (e_plan e (search_statement None (sanitize_body b0)))
               (search_order_by (sanitize_body b0))
               (matching d (e_now e) (search_where (sanitize_body b0)))"
  shows "strip_response (response (search_jobs e d u b0)) = response (search_jobs e d None b0)"
proof (cases "valid_body b0")
  case False
  then show ?thesis by (simp add: search_jobs_def strip_response_def)
next
  case True
  let ?s = "search_statement u (sanitize_body b0)"
  have "map strip (run_select e d ?s) = run_select e d (?s\<lparr>s_jobseekerId := None\<rparr>)"
    using assms unfolding search_statement_anonymous [of _ u] by (intro strip_run_select) simp
  then have r: "run_select e d (?s\<lparr>s_jobseekerId := None\<rparr>) = map strip (run_select e d ?s)"
    by simp
  show ?thesis
    using True
    unfolding search_jobs_def search_statement_anonymous [of _ u] Let_def executeQuery_def
      accepts_anonymous r
    by (simp add: strip_response_def totalCount_of_strip)
qed

lemma get_jobs_not_jobseeker:
  "\<not> is_jobseeker u \<Longrightarrow> get_jobs e d u q0 = get_jobs e d None q0"
  by (simp add: get_jobs_def get_statement_def user_param_not_jobseeker)

lemma search_jobs_not_jobseeker:
  "\<not> is_jobseeker u \<Longrightarrow> search_jobs e d u b0 = search_jobs e d None b0"
  by (simp add: search_jobs_def search_statement_def user_param_not_jobseeker)

lemma get_jobs_user_columns:
  assumes "response (get_jobs e d u q0) = Json200 p" and "r \<in> set (jobs p)"
  shows "(has_applied r \<noteq> None \<longleftrightarrow> is_jobseeker u) \<and> (is_saved r \<noteq> None \<longleftrightarrow> is_jobseeker u)"
proof -
  from get_jobs_Json200D [OF assms(1)]
  have v: "valid_query q0" "accepts e (get_statement u q0)" by simp_all
  from get_jobs_success [OF v, of d] assms
  have "r \<in> set (run_select e d (get_statement u (sanitize_query q0)))" by auto
  from run_select_user_columns [OF this] user_param_iff [of u] show ?thesis by simp
qed

lemma search_jobs_user_columns:
  assumes "response (search_jobs e d u b0) = Json200 p" and "r \<in> set (jobs p)"
  shows "(has_applied r \<noteq> None \<longleftrightarrow> is_jobseeker u) \<and> (is_saved r \<noteq> None \<longleftrightarrow> is_jobseeker u)"
proof -
  from search_jobs_Json200D [OF assms(1)]
  have v: "valid_body b0" "accepts e (search_statement u b0)" by simp_all
  from search_jobs_success [OF v, of d] assms
  have "r \<in> set (run_select e d (search_statement u (sanitize_body b0)))" by auto
  from run_select_user_columns [OF this] user_param_iff [of u] show ?thesis by simp
qed

lemma get_jobs_rows:
  assumes "response (get_jobs e d u q0) = Json200 p"
  shows "set (map core (jobs p)) \<subseteq> set (matching d (e_now e) (get_where (sanitize_query q0)))
         \<and> sorted_wrt (ord_le (get_order_by (sanitize_query q0))) (map core (jobs p))"
proof -
  from get_jobs_Json200D [OF assms]
  have v: "valid_query q0" "accepts e (get_statement u q0)" by simp_all
  from get_jobs_success [OF v, of d] assms
  have j: "jobs p = run_select e d (get_statement u (sanitize_query q0))" by auto
  show ?thesis
    using set_run_select [of _ e d "get_statement u (sanitize_query q0)"]
      sorted_run_select [of "get_statement u (sanitize_query q0)" e d]
    unfolding j by (auto simp: matching_def)
qed

lemma search_jobs_rows:
  assumes "response (search_jobs e d u b0) = Json200 p"
  shows "set (map core (jobs p)) \<subseteq> set (matching d (e_now e) (search_where (sanitize_body b0)))
         \<and> sorted_wrt (ord_le (search_order_by (sanitize_body b0))) (map core (jobs p))"
proof -
  from search_jobs_Json200D [OF assms]
  have v: "valid_body b0" "accepts e (search_statement u b0)" by simp_all
  from search_jobs_success [OF v, of d] assms
  have j: "jobs p = run_select e d (search_statement u (sanitize_body b0))" by auto
  show ?thesis
    using set_run_select [of _ e d "search_statement u (sanitize_body b0)"]
      sorted_run_select [of "search_statement u (sanitize_body b0)" e d]
    unfolding j by (auto simp: matching_def)
qed

text \<open>
  C9, as the spec states it, fails: a jobseeker's request sends another statement than
  the same request without a caller, no ORDER BY has a unique key, and the store may
  settle ties differently for the two. With the posted date as the only key, jobs 1 and
  3 tie; in the second example environment the jobseeker gets them in the order 3, 1 and
  the anonymous caller in the order 1, 3, and with a limit of 2 the two pages do not
  even hold the same jobs.
\<close>

theorem annotation_changes_tie_order:
  "page_ids (search_jobs ex_env_ties ex_db (Some ex_user) ex_body) = Some [2, 3, 1]
   \<and> page_ids (search_jobs ex_env_ties ex_db None ex_body) = Some [2, 1, 3]
   \<and> page_ids (search_jobs ex_env_ties ex_db (Some ex_user) (ex_body\<lparr>b_limit := Some 2\<rparr>))
       = Some [2, 3]
   \<and> page_ids (search_jobs ex_env_ties ex_db None (ex_body\<lparr>b_limit := Some 2\<rparr>)) = Some [2, 1]
   \<and> posted_date ex_job1 = posted_date ex_job3"
  by code_simp

text \<open>
  C9, amended. On both endpoints: (1) a caller who is not a jobseeker gets the very
  outcome of the request without a caller; (2) every item carries the two per-user
  columns exactly when the caller is a jobseeker, and an absent caller is none;
  (3) whoever calls, the response has the same status, the same number of items, the
  same pagination envelope and the same echoed filters as without a caller; (4) the
  items are rows that match the same WHERE clause, sorted by the same keys; (5) when the
  engine ranks the rows alike for the statement with and the statement without the
  per-user columns, or when no two different matching rows tie on the sort keys, the
  response with the two columns removed is the response without a caller: the same
  items in the same order.
\<close>

theorem annotation_keeps_page_up_to_ties:
  "(\<not> is_jobseeker u \<longrightarrow>
      get_jobs e d u q0 = get_jobs e d None q0
      \<and> search_jobs e d u b0 = search_jobs e d None b0)
   \<and> is_jobseeker None = False
   \<and> (response (get_jobs e d u q0) = Json200 p \<and> r \<in> set (jobs p) \<longrightarrow>
        (has_applied r \<noteq> None \<longleftrightarrow> is_jobseeker u) \<and> (is_saved r \<noteq> None \<longleftrightarrow> is_jobseeker u))
   \<and> (response (search_jobs e d u b0) = Json200 p' \<and> r' \<in> set (jobs p') \<longrightarrow>
        (has_applied r' \<noteq> None \<longleftrightarrow> is_jobseeker u) \<and> (is_saved r' \<noteq> None \<longleftrightarrow> is_jobseeker u))
   \<and> envelope (response (get_jobs e d u q0)) = envelope (response (get_jobs e d None q0))
   \<and> envelope (response (search_jobs e d u b0)) = envelope (response (search_jobs e d None b0))
   \<and> (response (get_jobs e d u q0) = Json200 p \<longrightarrow>
        set (map core (jobs p)) \<subseteq> set (matching d (e_now e) (get_where (sanitize_query q0)))
        \<and> sorted_wrt (ord_le (get_order_by (sanitize_query q0))) (map core (jobs p)))
   \<and> (response (search_jobs e d u b0) = Json200 p' \<longrightarrow>
        set (map core (jobs p')) \<subseteq> set (matching d (e_now e) (search_where (sanitize_body b0)))
        \<and> sorted_wrt (ord_le (search_order_by (sanitize_body b0))) (map core (jobs p')))
   \<and> (e_plan e (get_statement u (sanitize_query q0))
         = e_plan e (get_statement None (sanitize_query q0))
       \<or> (\<forall>a \<in> set (matching d (e_now e) (get_where (sanitize_query q0))).
           \<forall>b \<in> set (matching d (e_now e) (get_where (sanitize_query q0))).
             ord_le (get_order_by (sanitize_query q0)) a b
             \<and> ord_le (get_order_by (sanitize_query q0)) b a \<longrightarrow> a = b)
       \<longrightarrow> strip_response (response (get_jobs e d u q0)) = response (get_jobs e d None q0))
   \<and> (e_plan e (search_statement u (sanitize_body b0))
         = e_plan e (search_statement None (sanitize_body b0))
       \<or> (\<forall>a \<in> set (matching d (e_now e) (search_where (sanitize_body b0))).
           \<forall>b \<in> set (matching d (e_now e) (search_where (sanitize_body b0))).
             ord_le (search_order_by (sanitize_body b0)) a b
             \<and> ord_le (search_order_by (sanitize_body b0)) b a \<longrightarrow> a = b)
       \<longrightarrow> strip_response (response (search_jobs e d u b0)) = response (search_jobs e d None b0))"
proof -
  have g: "strip_response (response (get_jobs e d u q0)) = response (get_jobs e d None q0)"
    if "e_plan e (get_statement u (sanitize_query q0))
          = e_plan e (get_statement None (sanitize_query q0))
        \<or> (\<forall>a \<in> set (matching d (e_now e) (get_where (sanitize_query q0))).
            \<forall>b \<in> set (matching d (e_now e) (get_where (sanitize_query q0))).
              ord_le (get_order_by (sanitize_query q0)) a b
              \<and> ord_le (get_order_by (sanitize_query q0)) b a \<longrightarrow> a = b)"
    using that
  proof
    assume "e_plan e (get_statement u (sanitize_query q0))
              = e_plan e (get_statement None (sanitize_query q0))"
    then show ?thesis by (intro get_jobs_strip) simp
  next
    assume "\<forall>a \<in> set (matching d (e_now e) (get_where (sanitize_query q0))).
            \<forall>b \<in> set (matching d (e_now e) (get_where (sanitize_query q0))).
              ord_le (get_order_by (sanitize_query q0)) a b
              \<and> ord_le (get_order_by (sanitize_query q0)) b a \<longrightarrow> a = b"
    then show ?thesis by (intro get_jobs_strip ordered_rank_free) blast
  qed
  have s: "strip_response (response (search_jobs e d u b0)) = response (search_jobs e d None b0)"
    if "e_plan e (search_statement u (sanitize_body b0))
          = e_plan e (search_statement None (sanitize_body b0))
        \<or> (\<forall>a \<in> set (matching d (e_now e) (search_where (sanitize_body b0))).
            \<forall>b \<in> set (matching d (e_now e) (search_where (sanitize_body b0))).
              ord_le (search_order_by (sanitize_body b0)) a b
              \<and> ord_le (search_order_by (sanitize_body b0)) b a \<longrightarrow> a = b)"
    using that
  proof
    assume "e_plan e (search_statement u (sanitize_body b0))
              = e_plan e (search_statement None (sanitize_body b0))"
    then show ?thesis by (intro search_jobs_strip) simp
  next
    assume "\<forall>a \<in> set (matching d (e_now e) (search_where (sanitize_body b0))).
            \<forall>b \<in> set (matching d (e_now e) (search_where (sanitize_body b0))).
              ord_le (search_order_by (sanitize_body b0)) a b
              \<and> ord_le (search_order_by (sanitize_body b0)) b a \<longrightarrow> a = b"
    then show ?thesis by (intro search_jobs_strip ordered_rank_free) blast
  qed
  show ?thesis
    using get_jobs_not_jobseeker [of u e d q0] search_jobs_not_jobseeker [of u e d b0]
      get_jobs_user_columns [of e d u q0 p r] search_jobs_user_columns [of e d u b0 p' r']
      get_jobs_envelope [of e d u q0] search_jobs_envelope [of e d u b0]
      get_jobs_rows [of e d u q0 p] search_jobs_rows [of e d u b0 p'] g s
    by (simp add: is_jobseeker_def)
qed

text \<open>
  The amended C9 on the example tables, in the environment that settles ties
  differently for the two statements. The listing has no tie (jobs 1 and 2 differ in
  the posted date), so the jobseeker's page is the anonymous page plus the two columns;
  the search has a tie, and the status, the number of items and the envelope still
  agree; a company user sees what an anonymous caller sees.
\<close>

theorem annotation_keeps_page_up_to_ties_witness:
  "is_jobseeker (Some ex_user)
   \<and> \<not> is_jobseeker (Some (ex_user\<lparr>userType := ''company''\<rparr>))
   \<and> \<not> (\<exists>a \<in> set (matching ex_db (e_now ex_env_ties) (get_where (sanitize_query ex_query))).
         \<exists>b \<in> set (matching ex_db (e_now ex_env_ties) (get_where (sanitize_query ex_query))).
           ord_le (get_order_by (sanitize_query ex_query)) a b
           \<and> ord_le (get_order_by (sanitize_query ex_query)) b a \<and> a \<noteq> b)
   \<and> strip_response (response (get_jobs ex_env_ties ex_db (Some ex_user) ex_query))
       = response (get_jobs ex_env_ties ex_db None ex_query)
   \<and> envelope (response (search_jobs ex_env_ties ex_db (Some ex_user) ex_body))
       = envelope (response (search_jobs ex_env_ties ex_db None ex_body))
   \<and> get_jobs ex_env_ties ex_db (Some (ex_user\<lparr>userType := ''company''\<rparr>)) ex_query
       = get_jobs ex_env_ties ex_db None ex_query
   \<and> search_jobs ex_env_ties ex_db (Some (ex_user\<lparr>userType := ''company''\<rparr>)) ex_body
       = search_jobs ex_env_ties ex_db None ex_body
   \<and> map_option (\<lambda>p. map has_applied (jobs p))
         (payload_of (get_jobs ex_env_ties ex_db (Some ex_user) ex_query))
       = Some [Some 0, Some 1]
   \<and> map_option (\<lambda>p. map has_applied (jobs p))
         (payload_of (get_jobs ex_env_ties ex_db None ex_query)) = Some [None, None]"
proof -
  have j: "is_jobseeker (Some ex_user)"
          "\<not> is_jobseeker (Some (ex_user\<lparr>userType := ''company''\<rparr>))"
    by code_simp+
  have t: "\<forall>a \<in> set (matching ex_db (e_now ex_env_ties) (get_where (sanitize_query ex_query))).
           \<forall>b \<in> set (matching ex_db (e_now ex_env_ties) (get_where (sanitize_query ex_query))).
             ord_le (get_order_by (sanitize_query ex_query)) a b
             \<and> ord_le (get_order_by (sanitize_query ex_query)) b a \<longrightarrow> a = b"
    by code_simp
  have a: "map_option (\<lambda>p. map has_applied (jobs p))
             (payload_of (get_jobs ex_env_ties ex_db (Some ex_user) ex_query))
           = Some [Some 0, Some 1]"
          "map_option (\<lambda>p. map has_applied (jobs p))
             (payload_of (get_jobs ex_env_ties ex_db None ex_query)) = Some [None, None]"
    by code_simp+
  note inst = annotation_keeps_page_up_to_ties
      [where e = ex_env_ties and d = ex_db and ?q0.0 = ex_query and ?b0.0 = ex_body]
  from inst [where u = "Some ex_user"] t
  have s: "strip_response (response (get_jobs ex_env_ties ex_db (Some ex_user) ex_query))
             = response (get_jobs ex_env_ties ex_db None ex_query)"
          "envelope (response (search_jobs ex_env_ties ex_db (Some ex_user) ex_body))
             = envelope (response (search_jobs ex_env_ties ex_db None ex_body))"
    by blast+
  from inst [where u = "Some (ex_user\<lparr>userType := ''company''\<rparr>)"] j(2)
  have c: "get_jobs ex_env_ties ex_db (Some (ex_user\<lparr>userType := ''company''\<rparr>)) ex_query
             = get_jobs ex_env_ties ex_db None ex_query"
          "search_jobs ex_env_ties ex_db (Some (ex_user\<lparr>userType := ''company''\<rparr>)) ex_body
             = search_jobs ex_env_ties ex_db None ex_body"
    by blast+
  from j t s c a show ?thesis by blast
qed

section \<open>C10: the view-count update cannot change the response\<close>

lemma run_select_update_ok: "run_select (e\<lparr>e_update_ok := ok\<rparr>) d s = run_select e d s"
  by (simp add: run_select_def)

lemma executeQuery_update_ok: "executeQuery (e\<lparr>e_update_ok := ok\<rparr>) d s = executeQuery e d s"
  by (simp add: executeQuery_def accepts_def run_select_update_ok)

lemma get_jobs_response_update_ok:
  "response (get_jobs (e\<lparr>e_update_ok := ok\<rparr>) d u q0) = response (get_jobs e d u q0)"
  by (simp add: get_jobs_def executeQuery_update_ok Let_def split: option.splits)

lemma search_jobs_update_ok:
  "search_jobs (e\<lparr>e_update_ok := ok\<rparr>) d u b0 = search_jobs e d u b0"
  by (simp add: search_jobs_def executeQuery_update_ok Let_def)

lemma get_jobs_effects:
  assumes "response (get_jobs e d u q0) = Json200 p"
  shows "db_after (get_jobs (e\<lparr>e_update_ok := ok\<rparr>) d u q0)
           = fst (if jobs p \<noteq> []
                  then update_views (e\<lparr>e_update_ok := ok\<rparr>) d
                         (map (\<lambda>r. job_id (r_job r)) (jobs p))
                  else (d, []))
         \<and> console (get_jobs (e\<lparr>e_update_ok := ok\<rparr>) d u q0)
           = snd (if jobs p \<noteq> []
                  then update_views (e\<lparr>e_update_ok := ok\<rparr>) d
                         (map (\<lambda>r. job_id (r_job r)) (jobs p))
                  else (d, []))"
proof -
  from get_jobs_Json200D [OF assms]
  have v: "valid_query q0" "accepts e (get_statement u q0)" by simp_all
  from get_jobs_success [OF v, of d] assms
  have j: "jobs p = run_select e d (get_statement u (sanitize_query q0))" by auto
  from v(2) have a: "accepts e (get_statement u (sanitize_query q0))"
    by (simp add: accepts_get_statement [of e u q0 u])
  have "executeQuery e d (get_statement u (sanitize_query q0)) = Some (jobs p)"
    using a j by (simp add: executeQuery_def)
  then have x: "executeQuery (e\<lparr>e_update_ok := ok\<rparr>) d (get_statement u (sanitize_query q0))
                  = Some (jobs p)"
    by (simp only: executeQuery_update_ok)
  show ?thesis
    using v(1) by (simp add: get_jobs_def x Let_def)
qed

lemma get_jobs_update_failed:
  assumes "response (get_jobs e d u q0) = Json200 p" and "jobs p \<noteq> []"
  shows "console (get_jobs (e\<lparr>e_update_ok := False\<rparr>) d u q0)
           = [''Query execution failed:'', ''Failed to update view counts:'']
         \<and> db_after (get_jobs (e\<lparr>e_update_ok := False\<rparr>) d u q0) = d"
  using get_jobs_effects [OF assms(1), of False] assms(2) by (simp add: update_views_def)

lemma get_jobs_update_done:
  assumes "response (get_jobs e d u q0) = Json200 p"
  shows "console (get_jobs (e\<lparr>e_update_ok := True\<rparr>) d u q0) = []
         \<and> db_after (get_jobs (e\<lparr>e_update_ok := True\<rparr>) d u q0)
             = d\<lparr>Jobs := map (\<lambda>j. if job_id j \<in> set (map (\<lambda>r. job_id (r_job r)) (jobs p))
                                   then j\<lparr>views_count := views_count j + 1\<rparr> else j) (Jobs d)\<rparr>"
  using get_jobs_effects [OF assms(1), of True] by (simp add: update_views_def)

text \<open>
  C10. The response of the listing endpoint is the same whether the view-count UPDATE
  fails or succeeds. When the page is not empty and the UPDATE fails, the failure is on
  the console and the tables are unchanged; when it succeeds, the view count of every
  job on the page has grown by one. The search endpoint sends no such UPDATE: its
  outcome does not depend on it.
\<close>

theorem view_count_failure_is_silent:
  "response (get_jobs (e\<lparr>e_update_ok := False\<rparr>) d u q0)
     = response (get_jobs (e\<lparr>e_update_ok := True\<rparr>) d u q0)
   \<and> (response (get_jobs e d u q0) = Json200 p \<and> jobs p \<noteq> [] \<longrightarrow>
        console (get_jobs (e\<lparr>e_update_ok := False\<rparr>) d u q0)
          = [''Query execution failed:'', ''Failed to update view counts:'']
        \<and> db_after (get_jobs (e\<lparr>e_update_ok := False\<rparr>) d u q0) = d)
   \<and> (response (get_jobs e d u q0) = Json200 p \<longrightarrow>
        console (get_jobs (e\<lparr>e_update_ok := True\<rparr>) d u q0) = []
        \<and> db_after (get_jobs (e\<lparr>e_update_ok := True\<rparr>) d u q0)
            = d\<lparr>Jobs := map (\<lambda>j. if job_id j \<in> set (map (\<lambda>r. job_id (r_job r)) (jobs p))
                                  then j\<lparr>views_count := views_count j + 1\<rparr> else j) (Jobs d)\<rparr>)
   \<and> search_jobs (e\<lparr>e_update_ok := False\<rparr>) d u b0
       = search_jobs (e\<lparr>e_update_ok := True\<rparr>) d u b0"
  using get_jobs_response_update_ok [where ok = False and e = e and d = d and u = u and ?q0.0 = q0]
    get_jobs_response_update_ok [where ok = True and e = e and d = d and u = u and ?q0.0 = q0]
    get_jobs_update_failed [of e d u q0 p] get_jobs_update_done [of e d u q0 p]
    search_jobs_update_ok [where ok = False and e = e and d = d and u = u and ?b0.0 = b0]
    search_jobs_update_ok [where ok = True and e = e and d = d and u = u and ?b0.0 = b0]
  by simp

text \<open>
  C10 on the example: with the UPDATE failing, the listing still returns jobs 2 and 1,
  and the failure is logged.
\<close>

theorem view_count_failure_is_silent_witness:
  "page_ids (get_jobs (ex_env\<lparr>e_update_ok := False\<rparr>) ex_db None ex_query) = Some [2, 1]
   \<and> response (get_jobs (ex_env\<lparr>e_update_ok := False\<rparr>) ex_db None ex_query)
       = response (get_jobs (ex_env\<lparr>e_update_ok := True\<rparr>) ex_db None ex_query)
   \<and> console (get_jobs (ex_env\<lparr>e_update_ok := False\<rparr>) ex_db None ex_query)
       = [''Query execution failed:'', ''Failed to update view counts:'']
   \<and> db_after (get_jobs (ex_env\<lparr>e_update_ok := False\<rparr>) ex_db None ex_query) = ex_db
   \<and> map views_count (Jobs (db_after (get_jobs (ex_env\<lparr>e_update_ok := True\<rparr>) ex_db None ex_query)))
       = [101, 81, 0]"
proof -
  have ids: "page_ids (get_jobs (ex_env\<lparr>e_update_ok := False\<rparr>) ex_db None ex_query) = Some [2, 1]"
            "page_ids (get_jobs ex_env ex_db None ex_query) = Some [2, 1]"
    by code_simp+
  have v: "map views_count
             (Jobs (db_after (get_jobs (ex_env\<lparr>e_update_ok := True\<rparr>) ex_db None ex_query)))
             = [101, 81, 0]"
    by code_simp
  from ids(2) obtain p where
    p: "response (get_jobs ex_env ex_db None ex_query) = Json200 p" "jobs p \<noteq> []"
    by (auto simp: page_ids_def payload_of_def split: response.splits)
  from view_count_failure_is_silent [of ex_env ex_db None ex_query p ex_body] p ids(1) v
  show ?thesis by simp
qed

end
